theory Spec2Isabelle
  imports Main "HOL-Library.AList"
begin

section \<open>JavaScript values and strings\<close>

text \<open>
  The filter expressions, relation specifications and bound parameters of the library are
  plain JSON-like JavaScript values. An object is kept as the list of its own enumerable
  properties in the order \<open>for ... in\<close> and \<open>Object.keys\<close> enumerate them (an object has
  every key once). Numbers are restricted to integers and characters to bytes.
\<close>

datatype jsval =
    JUndefined
  | JNull
  | JBool bool
  | JNum int
  | JStr string
  | JArr "jsval list"
  | JObj "(string \<times> jsval) list"

text \<open>JavaScript truthiness (\<open>!x\<close> is its negation).\<close>

fun truthy :: "jsval \<Rightarrow> bool" where
  "truthy JUndefined = False"
| "truthy JNull = False"
| "truthy (JBool b) = b"
| "truthy (JNum n) = (n \<noteq> 0)"
| "truthy (JStr s) = (s \<noteq> [])"
| "truthy (JArr xs) = True"
| "truthy (JObj kvs) = True"

fun isArray :: "jsval \<Rightarrow> bool" where
  "isArray (JArr xs) = True"
| "isArray v = False"

text \<open>\<open>xs.join(sep)\<close> on an array of strings.\<close>

fun join :: "string \<Rightarrow> string list \<Rightarrow> string" where
  "join sep [] = []"
| "join sep [x] = x"
| "join sep (x # y # ys) = x @ sep @ join sep (y # ys)"

text \<open>\<open>s.split(c)\<close> for a one-character separator: never empty, \<open>''''.split(c) = ['''']\<close>.\<close>

fun split :: "char \<Rightarrow> string \<Rightarrow> string list" where
  "split c [] = [[]]"
| "split c (x # xs) =
     (if x = c then [] # split c xs
      else (case split c xs of
              [] \<Rightarrow> [[x]]
            | y # ys \<Rightarrow> (x # y) # ys))"

text \<open>\<open>s.replace(/\./g, '_')\<close>.\<close>

definition replaceDots :: "string \<Rightarrow> string" where
  "replaceDots s = map (\<lambda>c. if c = CHR ''.'' then CHR ''_'' else c) s"

text \<open>Decimal rendering of a non-negative integer, as \<open>String(n)\<close> and template literals do.\<close>

definition digit :: "nat \<Rightarrow> char" where
  "digit n = ''0123456789'' ! (n mod 10)"

fun string_of_nat :: "nat \<Rightarrow> string" where
  "string_of_nat n =
     (if n < 10 then [digit n] else string_of_nat (n div 10) @ [digit (n mod 10)])"

declare string_of_nat.simps [simp del]

definition string_of_int :: "int \<Rightarrow> string" where
  "string_of_int i = (if i < 0 then CHR ''-'' # string_of_nat (nat (- i)) else string_of_nat (nat i))"

text \<open>\<open>String(v)\<close> and \<open>`${v}`\<close>.\<close>

fun jsToString :: "jsval \<Rightarrow> string" where
  "jsToString JUndefined = ''undefined''"
| "jsToString JNull = ''null''"
| "jsToString (JBool b) = (if b then ''true'' else ''false'')"
| "jsToString (JNum n) = string_of_int n"
| "jsToString (JStr s) = s"
| "jsToString (JArr xs) =
     join '','' (map (\<lambda>x. case x of JUndefined \<Rightarrow> [] | JNull \<Rightarrow> [] | _ \<Rightarrow> jsToString x) xs)"
| "jsToString (JObj kvs) = ''[object Object]''"

text \<open>\<open>s.toLowerCase()\<close> on the ASCII letters.\<close>

definition toLowerCase :: "string \<Rightarrow> string" where
  "toLowerCase s =
     map (\<lambda>c. case map_of (zip ''ABCDEFGHIJKLMNOPQRSTUVWXYZ'' ''abcdefghijklmnopqrstuvwxyz'') c of
                 None \<Rightarrow> c
               | Some l \<Rightarrow> l) s"

text \<open>
  \<open>Object.assign(target, source)\<close> on plain objects: the value of a key the target has is
  overwritten in place, and the other keys are appended. The bound parameters of a query are
  such an object.
\<close>

definition Object_assign :: "(string \<times> 'v) list \<Rightarrow> (string \<times> 'v) list \<Rightarrow> (string \<times> 'v) list" where
  "Object_assign target source = fold (\<lambda>kv acc. AList.update (fst kv) (snd kv) acc) source target"

type_synonym params = "(string \<times> jsval) list"

section \<open>Errors\<close>

text \<open>
  The operator of a comparison is a string read as a \<open>WhereOperatorEnum\<close>: one of the
  members the compiler's \<open>switch\<close> names, or any other string (\<open>UNKNOWN\<close>), which reaches the
  \<open>default\<close> branch.
\<close>

datatype WhereOperatorEnum =
    EQ | NOT_EQ | GT | GT_OR_EQ | LT | LT_OR_EQ
  | LIKE | NOT_LIKE | ILIKE | NOT_ILIKE
  | STARTS_WITH | ENDS_WITH | ISTARTS_WITH | IENDS_WITH
  | IN_L | NOT_IN_L | IN | NOT_IN
  | CONT_ARR | INTERSECTS_ARR
  | IS_NULL | IS_NOT_NULL
  | BETWEEN | NOT_BETWEEN
  | IS_TRUE | IS_FALSE
  | UNKNOWN string

text \<open>
  A \<open>throw\<close> is the left summand of a result. \<open>BadRequestException\<close> is the framework's
  client error (status 400); its three messages are
  \<open>Operator <op> requires an array value\<close>, \<open>Operator <op> is only supported for PostgreSQL\<close>
  and \<open>Unsupported operator: <op>\<close>. \<open>Error\<close> carries its message, and \<open>TypeError\<close> is what
  destructuring a value that is not iterable throws.
\<close>

datatype bad_request =
    RequiresArrayValue WhereOperatorEnum
  | OnlySupportedForPostgreSQL WhereOperatorEnum
  | UnsupportedOperator WhereOperatorEnum

datatype error =
    BadRequestException bad_request
  | Error string
  | TypeError

section \<open>The predicate compiler: one comparison\<close>

record WhereQueryBuilder =
  paramIndex :: nat
  paramsPrefix :: string

definition WhereQueryBuilder_new :: WhereQueryBuilder where
  "WhereQueryBuilder_new = \<lparr>paramIndex = 0, paramsPrefix = ''where_param_''\<rparr>"

definition convertToText :: "string \<Rightarrow> string \<Rightarrow> string" where
  "convertToText dbType columnName =
     (if dbType = ''postgres'' \<or> dbType = ''postgresql'' then columnName @ ''::text''
      else if dbType = ''sqlite'' \<or> dbType = ''better-sqlite3'' then ''CAST('' @ columnName @ '' AS TEXT)''
      else if dbType = ''mysql'' \<or> dbType = ''mariadb'' then ''CAST('' @ columnName @ '' AS CHAR)''
      else if dbType = ''mssql'' then ''CAST('' @ columnName @ '' AS NVARCHAR(MAX))''
      else if dbType = ''oracle'' then ''TO_CHAR('' @ columnName @ '')''
      else ''CAST('' @ columnName @ '' AS VARCHAR)'')"

definition generateLikeQuery :: "string \<Rightarrow> string \<Rightarrow> string \<Rightarrow> bool \<Rightarrow> bool \<Rightarrow> string" where
  "generateLikeQuery dbType columnName paramName isNegated isCaseInsensitive =
     (let negation = (if isNegated then ''NOT '' else []);
          textColumn = convertToText dbType columnName
      in if isCaseInsensitive
         then ''LOWER('' @ textColumn @ '') '' @ negation @ ''LIKE LOWER(:'' @ paramName @ '')''
         else textColumn @ '' '' @ negation @ ''LIKE :'' @ paramName)"

text \<open>
  \<open>const [start, end] = value\<close>: the first two elements of an array, or characters of a
  string, \<open>undefined\<close> where there is none; no other value of the model is iterable.
\<close>

definition nthOrUndefined :: "jsval list \<Rightarrow> nat \<Rightarrow> jsval" where
  "nthOrUndefined xs i = (if i < length xs then xs ! i else JUndefined)"

fun destructurePair :: "jsval \<Rightarrow> (jsval \<times> jsval) option" where
  "destructurePair (JArr xs) = Some (nthOrUndefined xs 0, nthOrUndefined xs 1)"
| "destructurePair (JStr s) =
     Some (nthOrUndefined (map (\<lambda>c. JStr [c]) s) 0, nthOrUndefined (map (\<lambda>c. JStr [c]) s) 1)"
| "destructurePair v = None"

type_synonym compiled = "string \<times> params"

definition isPostgres :: "string \<Rightarrow> bool" where
  "isPostgres dbType = (dbType = ''postgres'' \<or> dbType = ''postgresql'')"

text \<open>
  \<open>parseWhereObjectToQueryAndParams(columnName, value, operator)\<close>. The parameter name is
  taken, and the counter advanced, before the operator is looked at. The result is
  \<open>{query, params}\<close> with the builder and its new counter.
\<close>

definition parseWhereObjectToQueryAndParams ::
  "string \<Rightarrow> WhereQueryBuilder \<Rightarrow> string \<Rightarrow> jsval \<Rightarrow> WhereOperatorEnum
     \<Rightarrow> error + (compiled \<times> WhereQueryBuilder)" where
  "parseWhereObjectToQueryAndParams dbType wb columnName val operator =
    (let paramName = paramsPrefix wb @ string_of_nat (paramIndex wb);
         wb' = wb\<lparr>paramIndex := paramIndex wb + 1\<rparr>
     in case operator of
        EQ \<Rightarrow> Inr ((columnName @ '' = :'' @ paramName, [(paramName, val)]), wb')
      | NOT_EQ \<Rightarrow> Inr ((columnName @ '' != :'' @ paramName, [(paramName, val)]), wb')
      | GT \<Rightarrow> Inr ((columnName @ '' > :'' @ paramName, [(paramName, val)]), wb')
      | GT_OR_EQ \<Rightarrow> Inr ((columnName @ '' >= :'' @ paramName, [(paramName, val)]), wb')
      | LT \<Rightarrow> Inr ((columnName @ '' < :'' @ paramName, [(paramName, val)]), wb')
      | LT_OR_EQ \<Rightarrow> Inr ((columnName @ '' <= :'' @ paramName, [(paramName, val)]), wb')
      | LIKE \<Rightarrow> Inr ((generateLikeQuery dbType columnName paramName False False, [(paramName, val)]), wb')
      | NOT_LIKE \<Rightarrow> Inr ((generateLikeQuery dbType columnName paramName True False, [(paramName, val)]), wb')
      | ILIKE \<Rightarrow> Inr ((generateLikeQuery dbType columnName paramName False True, [(paramName, val)]), wb')
      | NOT_ILIKE \<Rightarrow> Inr ((generateLikeQuery dbType columnName paramName True True, [(paramName, val)]), wb')
      | STARTS_WITH \<Rightarrow>
          Inr ((generateLikeQuery dbType columnName paramName False False,
                [(paramName, JStr (jsToString val @ ''%''))]), wb')
      | ENDS_WITH \<Rightarrow>
          Inr ((generateLikeQuery dbType columnName paramName False False,
                [(paramName, JStr (''%'' @ jsToString val))]), wb')
      | ISTARTS_WITH \<Rightarrow>
          Inr ((generateLikeQuery dbType columnName paramName False True,
                [(paramName, JStr (jsToString val @ ''%''))]), wb')
      | IENDS_WITH \<Rightarrow>
          Inr ((generateLikeQuery dbType columnName paramName False True,
                [(paramName, JStr (''%'' @ jsToString val))]), wb')
      | IN_L \<Rightarrow>
          (case val of
             JArr xs \<Rightarrow>
               if length xs = 0 then Inr ((''1 = 0'', []), wb')
               else Inr ((''LOWER('' @ convertToText dbType columnName @ '') IN (:...'' @ paramName @ '')'',
                          [(paramName, JArr (map (\<lambda>v. JStr (toLowerCase (jsToString v))) xs))]), wb')
           | _ \<Rightarrow> Inl (BadRequestException (RequiresArrayValue operator)))
      | NOT_IN_L \<Rightarrow>
          (case val of
             JArr xs \<Rightarrow>
               Inr ((''LOWER('' @ convertToText dbType columnName @ '') NOT IN (:...'' @ paramName @ '')'',
                     [(paramName, JArr (map (\<lambda>v. JStr (toLowerCase (jsToString v))) xs))]), wb')
           | _ \<Rightarrow> Inl (BadRequestException (RequiresArrayValue operator)))
      | IN \<Rightarrow>
          (case val of
             JArr [] \<Rightarrow> Inr ((''1 = 0'', []), wb')
           | _ \<Rightarrow> Inr ((columnName @ '' IN (:...'' @ paramName @ '')'', [(paramName, val)]), wb'))
      | NOT_IN \<Rightarrow> Inr ((columnName @ '' NOT IN (:...'' @ paramName @ '')'', [(paramName, val)]), wb')
      | CONT_ARR \<Rightarrow>
          (case val of
             JArr xs \<Rightarrow>
               if length xs = 0 then Inr ((''1 = 0'', []), wb')
               else if \<not> isPostgres dbType
               then Inl (BadRequestException (OnlySupportedForPostgreSQL operator))
               else Inr ((columnName @ '' @> ARRAY[:...'' @ paramName @ '']::text[]'', [(paramName, val)]), wb')
           | _ \<Rightarrow> Inl (BadRequestException (RequiresArrayValue operator)))
      | INTERSECTS_ARR \<Rightarrow>
          (case val of
             JArr xs \<Rightarrow>
               if length xs = 0 then Inr ((''1 = 0'', []), wb')
               else if \<not> isPostgres dbType
               then Inl (BadRequestException (OnlySupportedForPostgreSQL operator))
               else Inr ((columnName @ '' && ARRAY[:...'' @ paramName @ '']::text[]'', [(paramName, val)]), wb')
           | _ \<Rightarrow> Inl (BadRequestException (RequiresArrayValue operator)))
      | IS_NULL \<Rightarrow> Inr ((columnName @ '' IS NULL'', []), wb')
      | IS_NOT_NULL \<Rightarrow> Inr ((columnName @ '' IS NOT NULL'', []), wb')
      | BETWEEN \<Rightarrow>
          (case destructurePair val of
             None \<Rightarrow> Inl TypeError
           | Some (start, end') \<Rightarrow>
               Inr ((columnName @ '' BETWEEN :'' @ paramName @ ''_0 AND :'' @ paramName @ ''_1'',
                     [(paramName @ ''_0'', start), (paramName @ ''_1'', end')]), wb'))
      | NOT_BETWEEN \<Rightarrow>
          (case destructurePair val of
             None \<Rightarrow> Inl TypeError
           | Some (start, end') \<Rightarrow>
               Inr ((columnName @ '' NOT BETWEEN :'' @ paramName @ ''_0 AND :'' @ paramName @ ''_1'',
                     [(paramName @ ''_0'', start), (paramName @ ''_1'', end')]), wb'))
      | IS_TRUE \<Rightarrow> Inr ((columnName @ '' IS TRUE'', []), wb')
      | IS_FALSE \<Rightarrow> Inr ((columnName @ '' IS FALSE'', []), wb')
      | UNKNOWN k \<Rightarrow> Inl (BadRequestException (UnsupportedOperator operator)))"

section \<open>Entity metadata and the query builder of the mapper\<close>

text \<open>
  The object-relational mapper supplies the entity metadata. Metadata objects refer to one
  another (a relation to its target entity, which has relations of its own, possibly back
  again), so they are kept in a store addressed by entity name, and a relation's
  \<open>inverseEntityMetadata\<close> is such an address.
\<close>

record ColumnMetadata =
  propertyName :: string
  propertyPath :: string
  databasePath :: string
  isPrimary :: bool
  isDeleteDate :: bool
  embeddedMetadata :: bool

record RelationMetadata =
  relationPropertyName :: string
  inverseEntityMetadata :: string

record EntityMetadata =
  targetName :: string
  columns :: "ColumnMetadata list"
  primaryColumns :: "ColumnMetadata list"
  relations :: "RelationMetadata list"
  deleteDateColumn :: "ColumnMetadata option"

record Repository =
  metadata :: EntityMetadata
  connectionOptionsType :: string

text \<open>
  What the compiler is parameterised by. \<open>normalizeColumnName\<close> (of the library's \<open>utils\<close>)
  and the string values of \<open>WhereOperatorEnum\<close> (of its \<open>types\<close>) are not among the sources:
  the former is taken as it comes, the latter as the function that reads an operator key.
  \<open>entityMetadataOf\<close> is the store of metadata objects.
\<close>

record environment =
  normalizeColumnName :: "string option \<Rightarrow> string \<Rightarrow> string"
  asWhereOperatorEnum :: "string \<Rightarrow> WhereOperatorEnum"
  entityMetadataOf :: "string \<Rightarrow> EntityMetadata"

text \<open>
  The mapper's \<open>SelectQueryBuilder\<close>, as far as the library drives it: it records the joins
  (\<open>leftJoin\<close>, \<open>innerJoin\<close>), the conditions with their parameters (\<open>andWhere\<close>), the
  selection (\<open>select\<close> replaces it), the orderings (\<open>addOrderBy\<close>) and the find options
  (\<open>setFindOptions\<close>).
\<close>

datatype JoinDirection = LEFT | INNER

record JoinAttribute =
  direction :: JoinDirection
  entityOrProperty :: "string option"
  joinAlias :: string

datatype OrderDirectionEnum = ASC | DESC

record FindManyOptions =
  findTake :: "int option"
  findSkip :: "int option"
  findWithDeleted :: "bool option"

record SelectQueryBuilder =
  builderAlias :: string
  joinAttributes :: "JoinAttribute list"
  wheres :: "(string \<times> params) list"
  selects :: "string list"
  orderBys :: "(string \<times> OrderDirectionEnum) list"
  findOptions :: "FindManyOptions option"

definition createQueryBuilder :: "string \<Rightarrow> SelectQueryBuilder" where
  "createQueryBuilder a =
     \<lparr>builderAlias = a, joinAttributes = [], wheres = [], selects = [], orderBys = [],
      findOptions = None\<rparr>"

definition leftJoin :: "string option \<Rightarrow> string \<Rightarrow> SelectQueryBuilder \<Rightarrow> SelectQueryBuilder" where
  "leftJoin p a b =
     b\<lparr>joinAttributes := joinAttributes b @ [\<lparr>direction = LEFT, entityOrProperty = p, joinAlias = a\<rparr>]\<rparr>"

definition innerJoin :: "string option \<Rightarrow> string \<Rightarrow> SelectQueryBuilder \<Rightarrow> SelectQueryBuilder" where
  "innerJoin p a b =
     b\<lparr>joinAttributes := joinAttributes b @ [\<lparr>direction = INNER, entityOrProperty = p, joinAlias = a\<rparr>]\<rparr>"

definition andWhere :: "string \<Rightarrow> params \<Rightarrow> SelectQueryBuilder \<Rightarrow> SelectQueryBuilder" where
  "andWhere q ps b = b\<lparr>wheres := wheres b @ [(q, ps)]\<rparr>"

definition addOrderBy :: "string \<Rightarrow> OrderDirectionEnum \<Rightarrow> SelectQueryBuilder \<Rightarrow> SelectQueryBuilder" where
  "addOrderBy f d b = b\<lparr>orderBys := orderBys b @ [(f, d)]\<rparr>"

section \<open>The shared helper: alias and column resolution\<close>

record AllowedRelation =
  relAlias :: string
  relName :: string
  relPath :: "string option"
  relColumns :: "string list"
  relNested :: bool
  relPrimaryColumns :: "string list"
  allowedColumns :: "string list"

text \<open>
  \<open>selectedFields\<close> is a \<open>Set\<close> of strings: a list without repetition, in insertion order.
  \<open>entityRelationsHash\<close> is a \<open>Map\<close>.
\<close>

record QueryBuilderHelper =
  selectedFields :: "string list"
  dbType :: string
  rootAlias :: string
  entityColumns :: "string list"
  entityPrimaryColumns :: "string list"
  entityColumnsHash :: "(string \<times> string) list"
  entityHasDeleteColumn :: bool
  entityRelationsHash :: "string \<rightharpoonup> AllowedRelation"
  repository :: Repository

definition Set_add :: "'a \<Rightarrow> 'a list \<Rightarrow> 'a list" where
  "Set_add x xs = (if x \<in> set xs then xs else xs @ [x])"

definition Set_addAll :: "'a list \<Rightarrow> 'a list \<Rightarrow> 'a list" where
  "Set_addAll ys xs = fold Set_add ys xs"

definition initializeEntityColumns :: "Repository \<Rightarrow> string list \<times> (string \<times> string) list" where
  "initializeEntityColumns repo =
     (map (\<lambda>prop. if embeddedMetadata prop then propertyPath prop else propertyName prop)
          (columns (metadata repo)),
      fold (\<lambda>prop hash.
              AList.update (if embeddedMetadata prop then propertyPath prop else propertyName prop)
                (databasePath prop) hash)
           (columns (metadata repo)) [])"

definition initializePrimaryColumns :: "Repository \<Rightarrow> string list" where
  "initializePrimaryColumns repo = map propertyName (filter isPrimary (columns (metadata repo)))"

definition initializeDeleteColumn :: "Repository \<Rightarrow> bool" where
  "initializeDeleteColumn repo = (length (filter isDeleteDate (columns (metadata repo))) > 0)"

definition QueryBuilderHelper_new :: "Repository \<Rightarrow> SelectQueryBuilder \<Rightarrow> QueryBuilderHelper" where
  "QueryBuilderHelper_new repo builder =
     \<lparr>selectedFields = [],
      dbType = connectionOptionsType repo,
      rootAlias = builderAlias builder,
      entityColumns = fst (initializeEntityColumns repo),
      entityPrimaryColumns = initializePrimaryColumns repo,
      entityColumnsHash = snd (initializeEntityColumns repo),
      entityHasDeleteColumn = initializeDeleteColumn repo,
      entityRelationsHash = Map.empty,
      repository = repo\<rparr>"

definition getIdentifierQuote :: "QueryBuilderHelper \<Rightarrow> char" where
  "getIdentifierQuote h = (if dbType h \<in> set [''mysql'', ''mariadb''] then CHR 0x60 else CHR 0x22)"

text \<open>\<open>fieldName.replace(new RegExp(quote, 'g'), '')\<close>: the quote is one character that
  has no special meaning in a regular expression, so every occurrence of it goes.\<close>

definition cleanFieldName :: "QueryBuilderHelper \<Rightarrow> string \<Rightarrow> string" where
  "cleanFieldName h fieldName = filter (\<lambda>c. c \<noteq> getIdentifierQuote h) fieldName"

definition getEntityColumns :: "EntityMetadata \<Rightarrow> string list \<times> string list" where
  "getEntityColumns entityMetadata =
     (map propertyPath (columns entityMetadata), map propertyPath (primaryColumns entityMetadata))"

text \<open>
  The \<open>reduce\<close> of \<open>getRelationMetadata\<close> over the segments of a nested path. The
  accumulator is the relations at the current level, the metadata of the last segment
  resolved, and the two variables the callback assigns, \<open>name\<close> and \<open>parentPath\<close>.
\<close>

type_synonym reduced = "RelationMetadata list \<times> EntityMetadata option \<times> string \<times> string"

definition reduceStep :: "environment \<Rightarrow> nat \<Rightarrow> reduced \<Rightarrow> string \<times> nat \<Rightarrow> reduced" where
  "reduceStep env n res pi =
     (case res of (rels, _, _, parentPath) \<Rightarrow>
      (case pi of (segment, i) \<Rightarrow>
        (let found = (if length rels \<noteq> 0
                      then List.find (\<lambda>one. relationPropertyName one = segment) rels
                      else None);
             relationMetadata = map_option (\<lambda>f. entityMetadataOf env (inverseEntityMetadata f)) found;
             rels' = (case relationMetadata of None \<Rightarrow> [] | Some m \<Rightarrow> relations m);
             parentPath' = (if i \<noteq> n - 1
                            then (if parentPath = [] then segment
                                  else parentPath @ ''.'' @ segment)
                            else parentPath)
         in (rels', relationMetadata, segment, parentPath'))))"

definition reduceFields :: "environment \<Rightarrow> RelationMetadata list \<Rightarrow> string list \<Rightarrow> reduced" where
  "reduceFields env rels segments =
     foldl (reduceStep env (length segments)) (rels, None, [], [])
       (zip segments [0 ..< length segments])"

text \<open>
  \<open>getRelationMetadata(field)\<close>: the descriptor of the relation a path names, if it has
  one, and the helper with its cache updated. Nothing in the body throws on the values of
  the model, so the \<open>catch\<close> is never entered.
\<close>

definition computeRelation :: "environment \<Rightarrow> QueryBuilderHelper \<Rightarrow> string \<Rightarrow> AllowedRelation option" where
  "computeRelation env h field =
     (let segments = split CHR ''.'' field in
      if length segments = 1 then
        (case List.find (\<lambda>one. relationPropertyName one = segments ! 0) (relations (metadata (repository h))) of
           None \<Rightarrow> None
         | Some found \<Rightarrow>
             (let relationMetadata = entityMetadataOf env (inverseEntityMetadata found) in
              Some \<lparr>relAlias = field, relName = segments ! 0,
                    relPath = Some (rootAlias h @ ''.'' @ segments ! 0),
                    relColumns = fst (getEntityColumns relationMetadata),
                    relNested = False,
                    relPrimaryColumns = snd (getEntityColumns relationMetadata),
                    allowedColumns = fst (getEntityColumns relationMetadata)\<rparr>))
      else
        (case reduceFields env (relations (metadata (repository h))) segments of
           (_, None, _, _) \<Rightarrow> None
         | (_, Some relationMetadata, name, parentPath) \<Rightarrow>
             (let path =
                    (if parentPath \<noteq> [] then
                       (case entityRelationsHash h parentPath of
                          None \<Rightarrow> None
                        | Some parentAllowedRelation \<Rightarrow>
                            (if relAlias parentAllowedRelation \<noteq> []
                             then Some (replaceDots (relAlias parentAllowedRelation) @ ''.'' @ name)
                             else Some field))
                     else None)
              in Some \<lparr>relAlias = field, relName = name, relPath = path,
                       relColumns = fst (getEntityColumns relationMetadata),
                       relNested = True,
                       relPrimaryColumns = snd (getEntityColumns relationMetadata),
                       allowedColumns = fst (getEntityColumns relationMetadata)\<rparr>)))"

definition getRelationMetadata ::
  "environment \<Rightarrow> QueryBuilderHelper \<Rightarrow> string \<Rightarrow> AllowedRelation option \<times> QueryBuilderHelper" where
  "getRelationMetadata env h field =
     (let allowedRelation =
            (case entityRelationsHash h field of
               Some cached \<Rightarrow> Some cached
             | None \<Rightarrow> computeRelation env h field)
      in case allowedRelation of
           None \<Rightarrow> (None, h)
         | Some r \<Rightarrow>
             (let toSave = r\<lparr>allowedColumns := relColumns r\<rparr>
              in (Some toSave, h\<lparr>entityRelationsHash := (entityRelationsHash h)(field \<mapsto> toSave)\<rparr>)))"

text \<open>
  \<open>getFieldWithAlias(field)\<close>, as every caller uses it (\<open>useDbField\<close> left at its default
  \<open>false\<close>).
\<close>

definition getFieldWithAlias :: "environment \<Rightarrow> QueryBuilderHelper \<Rightarrow> string \<Rightarrow> string \<times> QueryBuilderHelper" where
  "getFieldWithAlias env h field =
     (let quote = [getIdentifierQuote h];
          cols = split CHR ''.'' field
      in if length cols = 1
         then (normalizeColumnName env (Some (rootAlias h @ ''.'' @ field)) quote, h)
         else
           (let columnName = last cols;
                colAlias = join ''_'' (butlast cols)
            in case getRelationMetadata env h field of
                 (Some relation, h') \<Rightarrow> (normalizeColumnName env (relPath relation) quote, h')
               | (None, h') \<Rightarrow> (normalizeColumnName env (Some (colAlias @ ''.'' @ columnName)) quote, h')))"

section \<open>The predicate compiler: the expression tree\<close>

text \<open>
  The compiler reads and updates two objects: the shared helper (its relation cache, through
  \<open>getFieldWithAlias\<close>) and its own parameter counter. The loop over the keys of a condition
  carries \<open>queryParts\<close> and \<open>params\<close>.
\<close>

type_synonym where_state = "QueryBuilderHelper \<times> WhereQueryBuilder"

type_synonym parts = "string list \<times> params"

text \<open>One comparison of a field: resolve the column, compile, and keep a non-empty query.\<close>

definition compileComparison ::
  "environment \<Rightarrow> where_state \<Rightarrow> string \<Rightarrow> jsval \<Rightarrow> WhereOperatorEnum \<Rightarrow> parts
     \<Rightarrow> error + (parts \<times> where_state)" where
  "compileComparison env st key val operator acc =
     (case getFieldWithAlias env (fst st) key of (column, h') \<Rightarrow>
       (case parseWhereObjectToQueryAndParams (dbType h') (snd st) column val operator of
          Inl e \<Rightarrow> Inl e
        | Inr ((query, subParams), wb') \<Rightarrow>
            Inr (if query \<noteq> [] then (fst acc @ [query], Object_assign (snd acc) subParams) else acc,
                 (h', wb'))))"

text \<open>\<open>for (const op in value)\<close> over an operator map.\<close>

fun forOperators ::
  "environment \<Rightarrow> where_state \<Rightarrow> string \<Rightarrow> (string \<times> jsval) list \<Rightarrow> parts
     \<Rightarrow> error + (parts \<times> where_state)" where
  "forOperators env st key [] acc = Inr (acc, st)"
| "forOperators env st key ((op, val) # ops) acc =
     (case compileComparison env st key val (asWhereOperatorEnum env op) acc of
        Inl e \<Rightarrow> Inl e
      | Inr (acc', st') \<Rightarrow> forOperators env st' key ops acc')"

text \<open>
  A key that is not a group marker: an object value that is neither \<open>null\<close> nor an array is
  an operator map, any other value an implicit equality.
\<close>

definition compileField ::
  "environment \<Rightarrow> where_state \<Rightarrow> string \<Rightarrow> jsval \<Rightarrow> parts \<Rightarrow> error + (parts \<times> where_state)" where
  "compileField env st key v acc =
     (case v of
        JObj ops \<Rightarrow> forOperators env st key ops acc
      | _ \<Rightarrow> compileComparison env st key v EQ acc)"

text \<open>
  The keys of an array or of a string are its indices, in decimal, so none of them is a group
  marker and each is compiled as a field.
\<close>

definition indexed :: "'a list \<Rightarrow> (string \<times> 'a) list" where
  "indexed xs = zip (map string_of_nat [0 ..< length xs]) xs"

fun forIndices ::
  "environment \<Rightarrow> where_state \<Rightarrow> (string \<times> jsval) list \<Rightarrow> parts \<Rightarrow> error + (parts \<times> where_state)" where
  "forIndices env st [] acc = Inr (acc, st)"
| "forIndices env st ((key, v) # kvs) acc =
     (case compileField env st key v acc of
        Inl e \<Rightarrow> Inl e
      | Inr (acc', st') \<Rightarrow> forIndices env st' kvs acc')"

definition groupQuery :: "string \<Rightarrow> string list \<Rightarrow> string" where
  "groupQuery key subParts =
     (let operator = (if key = ''$and'' then '' AND '' else '' OR '')
      in if length subParts > 1 then ''('' @ join operator subParts @ '')'' else join operator subParts)"

definition finish :: "error + (parts \<times> where_state) \<Rightarrow> error + (compiled \<times> where_state)" where
  "finish r =
     (case r of
        Inl e \<Rightarrow> Inl e
      | Inr ((queryParts, ps), st') \<Rightarrow>
          Inr ((if length queryParts \<noteq> 0 then join '' AND '' queryParts else [], ps), st'))"

text \<open>
  \<open>buildWhereQueryAndParams(condition)\<close>, with its loop over the keys of the condition
  (\<open>forKeys\<close>) and its loop over the elements of a group (\<open>forSubs\<close>, which carries
  \<open>subParts\<close> and the \<open>params\<close> of the enclosing call).
\<close>

fun buildWhereQueryAndParams ::
      "environment \<Rightarrow> where_state \<Rightarrow> jsval \<Rightarrow> error + (compiled \<times> where_state)"
  and forKeys ::
      "environment \<Rightarrow> where_state \<Rightarrow> (string \<times> jsval) list \<Rightarrow> parts \<Rightarrow> error + (parts \<times> where_state)"
  and forSubs ::
      "environment \<Rightarrow> where_state \<Rightarrow> jsval list \<Rightarrow> parts \<Rightarrow> error + (parts \<times> where_state)"
where
  "buildWhereQueryAndParams env st (JObj kvs) =
     (if length kvs = 0 then Inr (([], []), st) else finish (forKeys env st kvs ([], [])))"
| "buildWhereQueryAndParams env st (JArr xs) =
     (if length xs = 0 then Inr (([], []), st) else finish (forIndices env st (indexed xs) ([], [])))"
| "buildWhereQueryAndParams env st (JStr s) =
     (if length s = 0 then Inr (([], []), st)
      else finish (forIndices env st (indexed (map (\<lambda>c. JStr [c]) s)) ([], [])))"
| "buildWhereQueryAndParams env st JUndefined = Inr (([], []), st)"
| "buildWhereQueryAndParams env st JNull = Inr (([], []), st)"
| "buildWhereQueryAndParams env st (JBool b) = Inr (([], []), st)"
| "buildWhereQueryAndParams env st (JNum n) = Inr (([], []), st)"
| "forKeys env st [] acc = Inr (acc, st)"
| "forKeys env st ((key, v) # kvs) acc =
     (if key = ''$and'' \<or> key = ''$or'' then
        (case v of
           JArr subs \<Rightarrow>
             (if length subs = 0 then forKeys env st kvs acc
              else
                (case forSubs env st subs ([], snd acc) of
                   Inl e \<Rightarrow> Inl e
                 | Inr ((subParts, ps), st') \<Rightarrow>
                     forKeys env st' kvs
                       (if length subParts \<noteq> 0 then fst acc @ [groupQuery key subParts] else fst acc, ps)))
         | _ \<Rightarrow> forKeys env st kvs acc)
      else
        (case compileField env st key v acc of
           Inl e \<Rightarrow> Inl e
         | Inr (acc', st') \<Rightarrow> forKeys env st' kvs acc'))"
| "forSubs env st [] acc = Inr (acc, st)"
| "forSubs env st (sub # subs) acc =
     (case buildWhereQueryAndParams env st sub of
        Inl e \<Rightarrow> Inl e
      | Inr ((query, subParams), st') \<Rightarrow>
          forSubs env st' subs
            (if query \<noteq> [] then (fst acc @ [''('' @ query @ '')''], Object_assign (snd acc) subParams)
             else acc))"

text \<open>
  \<open>WhereQueryBuilder.build(whereObject)\<close>: the compiled condition is added to the builder
  with \<open>andWhere\<close>, unless there is none.
\<close>

definition objectKeysEmpty :: "jsval \<Rightarrow> bool" where
  "objectKeysEmpty v = (case v of JObj kvs \<Rightarrow> length kvs = 0 | JArr xs \<Rightarrow> length xs = 0 | _ \<Rightarrow> False)"

definition WhereQueryBuilder_build ::
  "environment \<Rightarrow> where_state \<times> SelectQueryBuilder \<Rightarrow> jsval
     \<Rightarrow> error + (where_state \<times> SelectQueryBuilder)" where
  "WhereQueryBuilder_build env sb whereObject =
     (if \<not> truthy whereObject then Inr sb
      else if (case whereObject of JArr xs \<Rightarrow> length xs = 0 | _ \<Rightarrow> False) then Inr sb
      else if objectKeysEmpty whereObject then Inr sb
      else
        (case buildWhereQueryAndParams env (fst sb)
                (if isArray whereObject then JObj [(''$and'', whereObject)] else whereObject) of
           Inl e \<Rightarrow> Inl e
         | Inr ((query, ps), st') \<Rightarrow>
             Inr (st', if query \<noteq> [] then andWhere query ps (snd sb) else snd sb)))"

text \<open>The \<open>{query, params}\<close> of a result, without the state.\<close>

definition compiledOf :: "error + (compiled \<times> where_state) \<Rightarrow> error + compiled" where
  "compiledOf r = (case r of Inl e \<Rightarrow> Inl e | Inr (c, st) \<Rightarrow> Inr c)"

text \<open>The parameter counter of a result.\<close>

definition counterOf :: "error + (compiled \<times> where_state) \<Rightarrow> nat option" where
  "counterOf r = (case r of Inl e \<Rightarrow> None | Inr (c, st) \<Rightarrow> Some (paramIndex (snd st)))"

section \<open>The join planner\<close>

datatype JoinType = left | inner

record RelationObjectValue =
  select :: "string list option"
  whereOption :: "jsval option"
  joinType :: "JoinType option"

datatype RelationValue = RelationBoolean bool | RelationConfig RelationObjectValue

text \<open>A \<open>RelationObject\<close> is a plain object from relation paths to values, in the order
  of its keys.\<close>

type_synonym RelationObject = "(string \<times> RelationValue) list"

datatype RelationOptions =
    RelationName string
  | RelationArray "RelationOptions list"
  | RelationMap RelationObject

fun parseJoinConfig :: "RelationOptions \<Rightarrow> RelationObject" where
  "parseJoinConfig (RelationName s) = [(s, RelationBoolean True)]"
| "parseJoinConfig (RelationArray cs) =
     fold (\<lambda>config result. Object_assign result (parseJoinConfig config)) cs []"
| "parseJoinConfig (RelationMap m) = m"

text \<open>The paths \<open>segments.slice(0, i).join('.')\<close> for \<open>i\<close> from 1 to the number of segments.\<close>

definition parentPaths :: "string \<Rightarrow> string list" where
  "parentPaths relationPath =
     (let segments = split CHR ''.'' relationPath
      in map (\<lambda>i. join ''.'' (take i segments)) [1 ..< length segments + 1])"

definition collectAllNeededRelations :: "RelationObject \<Rightarrow> string list" where
  "collectAllNeededRelations joinConfig =
     fold (\<lambda>relationPath allRelations. Set_addAll (parentPaths relationPath) allRelations)
       (map fst joinConfig) []"

definition depth :: "string \<Rightarrow> nat" where
  "depth a = length (split CHR ''.'' a)"

text \<open>\<open>Array.from(allNeededRelations).sort((a, b) => depthA - depthB)\<close>; the sort is stable.\<close>

definition sortedRelations :: "RelationObject \<Rightarrow> string list" where
  "sortedRelations joinConfig = sort_key depth (collectAllNeededRelations joinConfig)"

text \<open>\<open>isArrayFull\<close> (of the library's \<open>utils\<close>, not among the sources): the value is an
  array and has an element.\<close>

definition isArrayFull :: "string list option \<Rightarrow> bool" where
  "isArrayFull v = (case v of None \<Rightarrow> False | Some xs \<Rightarrow> length xs > 0)"

definition selectList :: "string list option \<Rightarrow> string list" where
  "selectList v = (case v of None \<Rightarrow> [] | Some xs \<Rightarrow> xs)"

definition applyJoin :: "RelationObjectValue \<Rightarrow> string option \<Rightarrow> string \<Rightarrow> SelectQueryBuilder \<Rightarrow> SelectQueryBuilder" where
  "applyJoin options p a b = (if joinType options = Some inner then innerJoin p a b else leftJoin p a b)"

definition notFound :: "string \<Rightarrow> string" where
  "notFound name = ''Relation '' @ [CHR 0x27] @ name @ [CHR 0x27] @ '' not found''"

definition addFields :: "string list \<Rightarrow> QueryBuilderHelper \<Rightarrow> QueryBuilderHelper" where
  "addFields fs h = h\<lparr>selectedFields := Set_addAll fs (selectedFields h)\<rparr>"

definition setJoin ::
  "environment \<Rightarrow> QueryBuilderHelper \<times> SelectQueryBuilder \<Rightarrow> string \<Rightarrow> RelationObjectValue
     \<Rightarrow> error + (QueryBuilderHelper \<times> SelectQueryBuilder)" where
  "setJoin env hb name options =
     (let segments = split CHR ''.'' name in
      if length segments = 1 then
        (case getRelationMetadata env (fst hb) name of
           (None, h') \<Rightarrow> Inl (Error (notFound name))
         | (Some allowedRelation, h') \<Rightarrow>
             (let builder' = applyJoin options (relPath allowedRelation) name (snd hb);
                  cols = (if isArrayFull (select options)
                          then filter (\<lambda>column. list_ex (\<lambda>allowed. allowed = column) (allowedColumns allowedRelation))
                                 (selectList (select options))
                          else allowedColumns allowedRelation);
                  selected = Set_addAll
                            (map (\<lambda>col. name @ ''.'' @ col) (relPrimaryColumns allowedRelation @ cols)) []
              in Inr (addFields selected h', builder')))
      else
        (let relationName = last segments;
             parentAlias = join ''_'' (butlast segments);
             currentAlias = replaceDots name;
             joinPath = parentAlias @ ''.'' @ relationName;
             builder' = applyJoin options (Some joinPath) currentAlias (snd hb)
         in case getRelationMetadata env (fst hb) name of
              (None, h') \<Rightarrow> Inr (h', builder')
            | (Some allowedRelation, h') \<Rightarrow>
                (if isArrayFull (select options) then
                   (let filteredColumns =
                          filter (\<lambda>column. list_ex (\<lambda>allowed. allowed = column) (allowedColumns allowedRelation))
                            (selectList (select options));
                        selected = map (\<lambda>col. currentAlias @ ''.'' @ col) filteredColumns
                    in Inr (addFields selected h', builder'))
                 else
                   (let selected = Set_addAll
                            (map (\<lambda>col. currentAlias @ ''.'' @ col)
                               (relPrimaryColumns allowedRelation @ allowedColumns allowedRelation)) []
                    in Inr (addFields selected h', builder')))))"

text \<open>
  The options \<open>build\<close> passes to \<open>setJoin\<close> for a path: \<open>joinConfig[relationPath] ||
  { joinType: 'left' }\<close>, then \<open>{ joinType: 'left' }\<close> for a boolean and
  \<open>{ joinType: 'left', ...config }\<close> for a record.
\<close>

definition defaultOptions :: RelationObjectValue where
  "defaultOptions = \<lparr>select = None, whereOption = None, joinType = Some left\<rparr>"

definition optionsFor :: "RelationObject \<Rightarrow> string \<Rightarrow> RelationObjectValue" where
  "optionsFor joinConfig relationPath =
     (case map_of joinConfig relationPath of
        None \<Rightarrow> defaultOptions
      | Some (RelationBoolean b) \<Rightarrow> defaultOptions
      | Some (RelationConfig config) \<Rightarrow>
          config\<lparr>joinType := (case joinType config of None \<Rightarrow> Some left | Some t \<Rightarrow> Some t)\<rparr>)"

fun forRelations ::
  "environment \<Rightarrow> RelationObject \<Rightarrow> QueryBuilderHelper \<times> SelectQueryBuilder \<Rightarrow> string list
     \<Rightarrow> error + (QueryBuilderHelper \<times> SelectQueryBuilder)" where
  "forRelations env joinConfig hb [] = Inr hb"
| "forRelations env joinConfig hb (relationPath # rest) =
     (case setJoin env hb relationPath (optionsFor joinConfig relationPath) of
        Inl e \<Rightarrow> Inl e
      | Inr hb' \<Rightarrow> forRelations env joinConfig hb' rest)"

definition JoinQueryBuilder_build ::
  "environment \<Rightarrow> QueryBuilderHelper \<times> SelectQueryBuilder \<Rightarrow> RelationOptions
     \<Rightarrow> error + (QueryBuilderHelper \<times> SelectQueryBuilder)" where
  "JoinQueryBuilder_build env hb config =
     (let joinConfig = parseJoinConfig config
      in forRelations env joinConfig hb (sortedRelations joinConfig))"




definition fieldsOf :: "error + (QueryBuilderHelper \<times> SelectQueryBuilder) \<Rightarrow> error + string list" where
  "fieldsOf r = (case r of Inl e \<Rightarrow> Inl e | Inr hb \<Rightarrow> Inr (selectedFields (fst hb)))"

section \<open>The query orchestrator\<close>

record IFindManyOptions =
  optRelations :: "RelationOptions option"
  optSkip :: "int option"
  optTake :: "int option"
  optOrder :: "(string \<times> OrderDirectionEnum) list option"
  optWhere :: jsval
  optSelect :: "string list option"
  onlyDeleted :: "bool option"
  withDeleted :: "bool option"

record FindQueryBuilder =
  fqbRepository :: Repository
  fqbBuilder :: SelectQueryBuilder
  fqbWhere :: WhereQueryBuilder
  fqbHelper :: QueryBuilderHelper

definition FindQueryBuilder_new :: "Repository \<Rightarrow> FindQueryBuilder" where
  "FindQueryBuilder_new repo =
     (let builder = createQueryBuilder (targetName (metadata repo))
      in \<lparr>fqbRepository = repo, fqbBuilder = builder, fqbWhere = WhereQueryBuilder_new,
          fqbHelper = QueryBuilderHelper_new repo builder\<rparr>)"

text \<open>\<open>buildSelect\<close>: the selected fields, or every column of the entity, resolved and added
  to the helper's set.\<close>

fun resolveAll :: "environment \<Rightarrow> QueryBuilderHelper \<Rightarrow> string list \<Rightarrow> string list \<times> QueryBuilderHelper" where
  "resolveAll env h [] = ([], h)"
| "resolveAll env h (f # fs) =
     (case getFieldWithAlias env h f of (fieldWithAlias, h') \<Rightarrow>
       (case resolveAll env h' fs of (rest, h'') \<Rightarrow> (fieldWithAlias # rest, h'')))"

fun forEntityColumns :: "environment \<Rightarrow> QueryBuilderHelper \<Rightarrow> string list \<Rightarrow> QueryBuilderHelper" where
  "forEntityColumns env h [] = h"
| "forEntityColumns env h (col # cols) =
     (case getFieldWithAlias env h col of (fieldWithAlias, h') \<Rightarrow>
        forEntityColumns env (addFields [fieldWithAlias] h') cols)"

definition buildSelect :: "environment \<Rightarrow> QueryBuilderHelper \<Rightarrow> string list option \<Rightarrow> QueryBuilderHelper" where
  "buildSelect env h sel =
     (if sel = None \<or> length (selectList sel) = 0 then forEntityColumns env h (entityColumns h)
      else (case resolveAll env h (selectList sel) of
              (fieldsWithAliases, h') \<Rightarrow> addFields fieldsWithAliases h'))"

fun buildOrder ::
  "environment \<Rightarrow> QueryBuilderHelper \<times> SelectQueryBuilder \<Rightarrow> (string \<times> OrderDirectionEnum) list
     \<Rightarrow> QueryBuilderHelper \<times> SelectQueryBuilder" where
  "buildOrder env hb [] = hb"
| "buildOrder env hb ((key, d) # order) =
     (case getFieldWithAlias env (fst hb) key of (field, h') \<Rightarrow>
        buildOrder env (h', addOrderBy (cleanFieldName h' field) d (snd hb)) order)"

definition isTrue :: "bool option \<Rightarrow> bool" where
  "isTrue v = (v = Some True)"

text \<open>The first statements of \<open>build\<close>: pagination and the soft-delete flags.\<close>

definition buildFindOptions :: "Repository \<Rightarrow> IFindManyOptions \<Rightarrow> FindManyOptions" where
  "buildFindOptions repo options =
     \<lparr>findTake = optTake options,
      findSkip = optSkip options,
      findWithDeleted =
        (if isTrue (onlyDeleted options) \<and> deleteDateColumn (metadata repo) \<noteq> None then Some True
         else if isTrue (withDeleted options) then Some True
         else None)\<rparr>"

definition applySoftDelete :: "Repository \<Rightarrow> IFindManyOptions \<Rightarrow> SelectQueryBuilder \<Rightarrow> SelectQueryBuilder" where
  "applySoftDelete repo options builder =
     (case deleteDateColumn (metadata repo) of
        None \<Rightarrow> builder
      | Some col \<Rightarrow>
          if isTrue (onlyDeleted options)
          then andWhere (builderAlias builder @ ''.'' @ propertyName col @ '' IS NOT NULL'') [] builder
          else builder)"

text \<open>\<open>if (options.relations)\<close>: an empty string is no relation specification.\<close>

definition givenRelations :: "RelationOptions option \<Rightarrow> RelationOptions option" where
  "givenRelations r = (case r of Some (RelationName s) \<Rightarrow> (if s = [] then None else r) | _ \<Rightarrow> r)"

definition applyOptions :: "environment \<Rightarrow> FindQueryBuilder \<Rightarrow> IFindManyOptions \<Rightarrow> error + FindQueryBuilder" where
  "applyOptions env q options =
     (let repo = fqbRepository q;
          builder1 = (applySoftDelete repo options (fqbBuilder q))
                       \<lparr>findOptions := Some (buildFindOptions repo options)\<rparr>;
          helper1 = buildSelect env (fqbHelper q) (optSelect options)
      in case (case givenRelations (optRelations options) of
                 Some rels \<Rightarrow> JoinQueryBuilder_build env (helper1, builder1) rels
               | None \<Rightarrow> Inr (helper1, builder1)) of
           Inl e \<Rightarrow> Inl e
         | Inr (helper2, builder2) \<Rightarrow>
             (case (if truthy (optWhere options)
                    then WhereQueryBuilder_build env ((helper2, fqbWhere q), builder2) (optWhere options)
                    else Inr ((helper2, fqbWhere q), builder2)) of
                Inl e \<Rightarrow> Inl e
              | Inr ((helper3, where3), builder3) \<Rightarrow>
                  (case (case optOrder options of
                           None \<Rightarrow> (helper3, builder3)
                         | Some order \<Rightarrow> buildOrder env (helper3, builder3) order) of
                     (helper4, builder4) \<Rightarrow>
                       Inr (q\<lparr>fqbBuilder := builder4, fqbWhere := where3, fqbHelper := helper4\<rparr>))))"

text \<open>\<open>FindQueryBuilder.build(options)\<close>: the options are applied, if there are any, and the
  selected fields, cleaned of quotes, become the selection of the builder.\<close>

definition FindQueryBuilder_build ::
  "environment \<Rightarrow> FindQueryBuilder \<Rightarrow> IFindManyOptions option \<Rightarrow> error + FindQueryBuilder" where
  "FindQueryBuilder_build env q options =
     (case (case options of None \<Rightarrow> Inr q | Some opts \<Rightarrow> applyOptions env q opts) of
        Inl e \<Rightarrow> Inl e
      | Inr q' \<Rightarrow>
          (let cleanFields = map (cleanFieldName (fqbHelper q')) (selectedFields (fqbHelper q'))
           in Inr (q'\<lparr>fqbBuilder := (fqbBuilder q')\<lparr>selects := cleanFields\<rparr>\<rparr>)))"

text \<open>The selection of a built query.\<close>

definition selectsOf :: "error + FindQueryBuilder \<Rightarrow> error + string list" where
  "selectsOf r = (case r of Inl e \<Rightarrow> Inl e | Inr q \<Rightarrow> Inr (selects (fqbBuilder q)))"

section \<open>A schema and an environment for concrete runs\<close>

text \<open>
  The entities of the library's tests, cut down: a user has a profile, a profile has
  addresses, and each points back. \<open>quoteParts\<close> stands for \<open>normalizeColumnName\<close> in the
  concrete runs: every part between dots is put in quotes. \<open>requestOperator\<close> reads the
  operator keys that the request package's \<open>WhereOperatorEnum\<close> lists.
\<close>

definition plainColumn :: "string \<Rightarrow> ColumnMetadata" where
  "plainColumn n =
     \<lparr>propertyName = n, propertyPath = n, databasePath = n, isPrimary = False,
      isDeleteDate = False, embeddedMetadata = False\<rparr>"

definition idColumn :: ColumnMetadata where
  "idColumn = (plainColumn ''id'')\<lparr>isPrimary := True\<rparr>"

definition deletedAtColumn :: ColumnMetadata where
  "deletedAtColumn = (plainColumn ''deletedAt'')\<lparr>isDeleteDate := True\<rparr>"

definition userEntity :: EntityMetadata where
  "userEntity =
     \<lparr>targetName = ''User'',
      columns = [idColumn, plainColumn ''name'', plainColumn ''status'', deletedAtColumn],
      primaryColumns = [idColumn],
      relations = [\<lparr>relationPropertyName = ''profile'', inverseEntityMetadata = ''Profile''\<rparr>],
      deleteDateColumn = Some deletedAtColumn\<rparr>"

definition profileEntity :: EntityMetadata where
  "profileEntity =
     \<lparr>targetName = ''Profile'',
      columns = [idColumn, plainColumn ''age'', plainColumn ''bio''],
      primaryColumns = [idColumn],
      relations = [\<lparr>relationPropertyName = ''user'', inverseEntityMetadata = ''User''\<rparr>,
                   \<lparr>relationPropertyName = ''addresses'', inverseEntityMetadata = ''ProfileAddress''\<rparr>],
      deleteDateColumn = None\<rparr>"

definition addressEntity :: EntityMetadata where
  "addressEntity =
     \<lparr>targetName = ''ProfileAddress'',
      columns = [idColumn, plainColumn ''city'', plainColumn ''state''],
      primaryColumns = [idColumn],
      relations = [\<lparr>relationPropertyName = ''profile'', inverseEntityMetadata = ''Profile''\<rparr>],
      deleteDateColumn = None\<rparr>"

definition exampleStore :: "string \<Rightarrow> EntityMetadata" where
  "exampleStore n =
     (if n = ''Profile'' then profileEntity
      else if n = ''ProfileAddress'' then addressEntity
      else userEntity)"

definition quoteParts :: "string option \<Rightarrow> string \<Rightarrow> string" where
  "quoteParts p q =
     (case p of
        None \<Rightarrow> ''undefined''
      | Some s \<Rightarrow> join ''.'' (map (\<lambda>part. q @ part @ q) (split CHR ''.'' s)))"

definition requestOperator :: "string \<Rightarrow> WhereOperatorEnum" where
  "requestOperator k =
     (case map_of
        [(''$eq'', EQ), (''$ne'', NOT_EQ), (''$gt'', GT), (''$gte'', GT_OR_EQ), (''$lt'', LT),
         (''$lte'', LT_OR_EQ), (''$in'', IN), (''$notIn'', NOT_IN), (''$like'', LIKE),
         (''$notLike'', NOT_LIKE), (''$iLike'', ILIKE), (''$notIlike'', NOT_ILIKE),
         (''$isNull'', IS_NULL), (''$isNotNull'', IS_NOT_NULL), (''$between'', BETWEEN),
         (''$notBetween'', NOT_BETWEEN), (''$isTrue'', IS_TRUE), (''$isFalse'', IS_FALSE)] k of
        None \<Rightarrow> UNKNOWN k
      | Some operator \<Rightarrow> operator)"

definition exampleEnvironment :: environment where
  "exampleEnvironment =
     \<lparr>normalizeColumnName = quoteParts, asWhereOperatorEnum = requestOperator,
      entityMetadataOf = exampleStore\<rparr>"

definition userRepository :: Repository where
  "userRepository = \<lparr>metadata = userEntity, connectionOptionsType = ''sqlite''\<rparr>"

definition profileRepository :: Repository where
  "profileRepository = \<lparr>metadata = profileEntity, connectionOptionsType = ''postgres''\<rparr>"

definition userBuilder :: SelectQueryBuilder where
  "userBuilder = createQueryBuilder ''User''"

definition userHelper :: QueryBuilderHelper where
  "userHelper = QueryBuilderHelper_new userRepository userBuilder"

definition noOptions :: IFindManyOptions where
  "noOptions =
     \<lparr>optRelations = None, optSkip = None, optTake = None, optOrder = None, optWhere = JUndefined,
      optSelect = None, onlyDeleted = None, withDeleted = None\<rparr>"

text \<open>Two filters: a group of three fields with four comparisons, and one null test.\<close>

definition sampleFilter :: jsval where
  "sampleFilter =
     JObj [(''$and'',
            JArr [JObj [(''status'', JObj [(''$eq'', JStr ''active''), (''$ne'', JStr ''banned'')])],
                  JObj [(''name'', JObj [(''$between'', JArr [JStr ''A'', JStr ''M''])])],
                  JObj [(''deletedAt'', JObj [(''$isNull'', JBool True)])]])]"

definition nullFilter :: jsval where
  "nullFilter = JObj [(''deletedAt'', JObj [(''$isNull'', JBool True)])]"

text \<open>A group of one element, and the element.\<close>

definition activeFilter :: jsval where
  "activeFilter = JObj [(''status'', JStr ''active'')]"

definition singletonGroup :: jsval where
  "singletonGroup = JObj [(''$and'', JArr [activeFilter])]"

definition pairGroup :: jsval where
  "pairGroup = JObj [(''$or'', JArr [activeFilter, JObj [], JObj [(''name'', JStr ''John'')]])]"

text \<open>Options that select one column of the user and join its profile.\<close>

definition nameAndProfile :: IFindManyOptions where
  "nameAndProfile = noOptions\<lparr>optSelect := Some [''name''], optRelations := Some (RelationName ''profile'')\<rparr>"

text \<open>
  A relation specification that names only a path of three segments, with a selection; the
  same with explicit configuration for the first ancestor; and two specifications that name
  a relation that does not exist, at the second segment and at the first.
\<close>

definition deepRelations :: RelationOptions where
  "deepRelations =
     RelationMap [(''profile.addresses.profile'',
                   RelationConfig \<lparr>select = Some [''age''], whereOption = None, joinType = None\<rparr>)]"

definition deepRelationsWithAncestor :: RelationOptions where
  "deepRelationsWithAncestor =
     RelationMap [(''profile.addresses.profile'',
                   RelationConfig \<lparr>select = Some [''age''], whereOption = None, joinType = None\<rparr>),
                  (''profile'',
                   RelationConfig \<lparr>select = Some [''bio''], whereOption = None, joinType = Some inner\<rparr>)]"



definition citiesOnly :: RelationOptions where
  "citiesOnly =
     RelationMap [(''profile.addresses'',
                   RelationConfig \<lparr>select = Some [''city''], whereOption = None, joinType = None\<rparr>)]"

definition agesOnly :: RelationOptions where
  "agesOnly =
     RelationMap [(''profile'',
                   RelationConfig \<lparr>select = Some [''age''], whereOption = None, joinType = None\<rparr>)]"

section \<open>The comparisons of a filter expression\<close>

text \<open>
  The leaf comparisons of a filter expression, as operator and value, in the order the
  compiler reaches them: the operators of an operator map, an implicit equality for any
  other value of a field, and the leaves of the elements of a group.
\<close>

definition fieldLeaves :: "environment \<Rightarrow> jsval \<Rightarrow> (WhereOperatorEnum \<times> jsval) list" where
  "fieldLeaves env v =
     (case v of
        JObj ops \<Rightarrow> map (\<lambda>kv. (asWhereOperatorEnum env (fst kv), snd kv)) ops
      | _ \<Rightarrow> [(EQ, v)])"

fun leaves :: "environment \<Rightarrow> jsval \<Rightarrow> (WhereOperatorEnum \<times> jsval) list"
  and leavesKeys :: "environment \<Rightarrow> (string \<times> jsval) list \<Rightarrow> (WhereOperatorEnum \<times> jsval) list"
  and leavesSubs :: "environment \<Rightarrow> jsval list \<Rightarrow> (WhereOperatorEnum \<times> jsval) list"
where
  "leaves env (JObj kvs) = leavesKeys env kvs"
| "leaves env (JArr xs) = concat (map (fieldLeaves env) xs)"
| "leaves env (JStr s) = concat (map (\<lambda>c. fieldLeaves env (JStr [c])) s)"
| "leaves env JUndefined = []"
| "leaves env JNull = []"
| "leaves env (JBool b) = []"
| "leaves env (JNum n) = []"
| "leavesKeys env [] = []"
| "leavesKeys env ((key, v) # kvs) =
     (if key = ''$and'' \<or> key = ''$or''
      then (case v of JArr subs \<Rightarrow> leavesSubs env subs | _ \<Rightarrow> [])
      else fieldLeaves env v) @ leavesKeys env kvs"
| "leavesSubs env [] = []"
| "leavesSubs env (sub # subs) = leaves env sub @ leavesSubs env subs"

text \<open>
  The number of parameters a comparison binds: two for a range, none for the null and
  boolean tests and for the membership and array operators guarded on the empty array, one
  otherwise.
\<close>

definition parameterKeys :: "WhereOperatorEnum \<times> jsval \<Rightarrow> nat" where
  "parameterKeys leaf =
     (case leaf of (operator, v) \<Rightarrow>
        if operator = BETWEEN \<or> operator = NOT_BETWEEN then 2
        else if operator = IS_NULL \<or> operator = IS_NOT_NULL \<or> operator = IS_TRUE \<or> operator = IS_FALSE
        then 0
        else if (operator = IN \<or> operator = IN_L \<or> operator = CONT_ARR \<or> operator = INTERSECTS_ARR)
                \<and> v = JArr []
        then 0
        else 1)"

text \<open>The names the compiler can give to the parameters of the comparison numbered \<open>k\<close>.\<close>

definition parameterNames :: "string \<Rightarrow> nat \<Rightarrow> string set" where
  "parameterNames prefix k =
     {prefix @ string_of_nat k, prefix @ string_of_nat k @ ''_0'', prefix @ string_of_nat k @ ''_1''}"

definition parametersIn :: "string \<Rightarrow> nat \<Rightarrow> nat \<Rightarrow> string set" where
  "parametersIn prefix a b = (\<Union>k \<in> {a ..< b}. parameterNames prefix k)"

text \<open>
  What holds of the parameters gathered so far during a compilation that started with the
  counter at \<open>a\<close> and has it at \<open>b\<close> now.
\<close>

definition wellKeyed :: "string \<Rightarrow> nat \<Rightarrow> nat \<Rightarrow> params \<Rightarrow> bool" where
  "wellKeyed prefix a b ps \<longleftrightarrow>
     distinct (map fst ps) \<and> set (map fst ps) \<subseteq> parametersIn prefix a b"

definition keyCount :: "(WhereOperatorEnum \<times> jsval) list \<Rightarrow> nat" where
  "keyCount ls = sum_list (map parameterKeys ls)"

text \<open>
  A stretch of a compilation that began with the counter at \<open>a\<close>: from state \<open>st\<close> and
  accumulators \<open>acc\<close> to \<open>st'\<close> and \<open>acc'\<close>, having compiled the comparisons \<open>ls\<close>.
\<close>

definition compiles ::
  "nat \<Rightarrow> (WhereOperatorEnum \<times> jsval) list \<Rightarrow> where_state \<Rightarrow> parts \<Rightarrow> where_state \<Rightarrow> parts \<Rightarrow> bool" where
  "compiles a ls st acc st' acc' \<longleftrightarrow>
     paramsPrefix (snd st') = paramsPrefix (snd st)
     \<and> paramIndex (snd st') = paramIndex (snd st) + length ls
     \<and> wellKeyed (paramsPrefix (snd st)) a (paramIndex (snd st')) (snd acc')
     \<and> length (snd acc') = length (snd acc) + keyCount ls
     \<and> (\<exists>new. fst acc' = fst acc @ new \<and> [] \<notin> set new \<and> (ls = [] \<longleftrightarrow> new = []))"

section \<open>Groups, as specified\<close>

text \<open>The elements of a group compiled one after the other, each from the state the
  previous one left.\<close>

fun compileElements ::
  "environment \<Rightarrow> where_state \<Rightarrow> jsval list \<Rightarrow> error + (compiled list \<times> where_state)" where
  "compileElements env st [] = Inr ([], st)"
| "compileElements env st (sub # subs) =
     (case buildWhereQueryAndParams env st sub of
        Inl e \<Rightarrow> Inl e
      | Inr (c, st') \<Rightarrow>
          (case compileElements env st' subs of
             Inl e \<Rightarrow> Inl e
           | Inr (cs, st'') \<Rightarrow> Inr (c # cs, st'')))"

definition surviving :: "compiled list \<Rightarrow> compiled list" where
  "surviving cs = filter (\<lambda>c. fst c \<noteq> []) cs"

definition connective :: "string \<Rightarrow> string" where
  "connective key = (if key = ''$and'' then '' AND '' else '' OR '')"

text \<open>
  The fragment of a group as the specification words it: the surviving fragments joined with
  the connective, in parentheses when there is more than one.
\<close>

definition groupAsSpecified :: "string \<Rightarrow> string list \<Rightarrow> string" where
  "groupAsSpecified key fragments =
     (if length fragments > 1 then ''('' @ join (connective key) fragments @ '')''
      else join (connective key) fragments)"

text \<open>
  The fragment of a group as compiled: every surviving fragment in parentheses of its own,
  these joined with the connective, and the whole in parentheses when there is more than one.
\<close>

definition groupAsCompiled :: "string \<Rightarrow> string list \<Rightarrow> string" where
  "groupAsCompiled key fragments =
     (if length fragments > 1
      then ''('' @ join (connective key) (map (\<lambda>q. ''('' @ q @ '')'') fragments) @ '')''
      else join (connective key) (map (\<lambda>q. ''('' @ q @ '')'') fragments))"

definition assignAll :: "params list \<Rightarrow> params" where
  "assignAll pss = foldl Object_assign [] pss"

section \<open>Facts about the helper\<close>

lemmas example_defs =
  exampleEnvironment_def exampleStore_def userEntity_def profileEntity_def addressEntity_def
  plainColumn_def idColumn_def deletedAtColumn_def quoteParts_def requestOperator_def
  userRepository_def profileRepository_def userBuilder_def userHelper_def noOptions_def
  QueryBuilderHelper_new_def createQueryBuilder_def WhereQueryBuilder_new_def
  initializeEntityColumns_def initializePrimaryColumns_def initializeDeleteColumn_def

lemmas helper_defs =
  getFieldWithAlias_def getRelationMetadata_def computeRelation_def reduceFields_def
  reduceStep_def getEntityColumns_def getIdentifierQuote_def replaceDots_def

lemmas where_defs =
  compiledOf_def finish_def compileField_def compileComparison_def
  parseWhereObjectToQueryAndParams_def Object_assign_def groupQuery_def indexed_def
  generateLikeQuery_def convertToText_def nthOrUndefined_def digit_def Let_def

lemma dbType_getRelationMetadata [simp]:
  "dbType (snd (getRelationMetadata env h field)) = dbType h"
  by (simp add: getRelationMetadata_def Let_def split: option.splits)

lemma dbType_getFieldWithAlias [simp]:
  "dbType (snd (getFieldWithAlias env h field)) = dbType h"
  by (simp add: getFieldWithAlias_def Let_def split: prod.splits option.splits)
     (metis dbType_getRelationMetadata snd_conv)

section \<open>Single comparisons\<close>





text \<open>
  Claim C7. The array-contains and array-intersects operators on a non-empty array raise the
  client error when the dialect is not PostgreSQL; they and the case-insensitive \<open>$in\<close>
  raise the client error on a value that is not an array; and array-contains and
  array-intersects on the empty array compile to \<open>1 = 0\<close> with no parameters.
\<close>

theorem C7_array_operator_errors:
  "(xs \<noteq> [] \<and> \<not> isPostgres d \<and> (operator = CONT_ARR \<or> operator = INTERSECTS_ARR) \<longrightarrow>
      parseWhereObjectToQueryAndParams d wb col (JArr xs) operator
        = Inl (BadRequestException (OnlySupportedForPostgreSQL operator)))
   \<and> (\<not> isArray v \<and> (operator = IN_L \<or> operator = CONT_ARR \<or> operator = INTERSECTS_ARR) \<longrightarrow>
      parseWhereObjectToQueryAndParams d wb col v operator
        = Inl (BadRequestException (RequiresArrayValue operator)))
   \<and> (operator = CONT_ARR \<or> operator = INTERSECTS_ARR \<longrightarrow>
      parseWhereObjectToQueryAndParams d wb col (JArr []) operator
        = Inr ((''1 = 0'', []), wb\<lparr>paramIndex := paramIndex wb + 1\<rparr>))"
  by (cases v) (auto simp: parseWhereObjectToQueryAndParams_def)

theorem C7_witness:
  "parseWhereObjectToQueryAndParams ''sqlite'' WhereQueryBuilder_new ''tags'' (JArr [JStr ''a'']) CONT_ARR
     = Inl (BadRequestException (OnlySupportedForPostgreSQL CONT_ARR))
   \<and> parseWhereObjectToQueryAndParams ''postgres'' WhereQueryBuilder_new ''tags'' (JStr ''a'') IN_L
     = Inl (BadRequestException (RequiresArrayValue IN_L))
   \<and> parseWhereObjectToQueryAndParams ''sqlite'' WhereQueryBuilder_new ''tags'' (JArr []) INTERSECTS_ARR
     = Inr ((''1 = 0'', []), \<lparr>paramIndex = 1, paramsPrefix = ''where_param_''\<rparr>)"
  using C7_array_operator_errors
          [of "[JStr ''a'']" "''sqlite''" CONT_ARR WhereQueryBuilder_new "''tags''" "JStr ''a''"]
        C7_array_operator_errors
          [of "[]" "''postgres''" IN_L WhereQueryBuilder_new "''tags''" "JStr ''a''"]
        C7_array_operator_errors
          [of "[]" "''sqlite''" INTERSECTS_ARR WhereQueryBuilder_new "''tags''" "JNull"]
  by (simp add: isPostgres_def WhereQueryBuilder_new_def)

section \<open>The empty filter\<close>

text \<open>
  Claim C4. An absent filter (\<open>undefined\<close>), the empty object and the empty array compile
  to the empty fragment with no parameters, leaving the compiler's state as it was; and
  \<open>build\<close> on any of them returns the helper, the counter and the query builder unchanged,
  so no condition is added.
\<close>

theorem C4_empty_filter_is_identity:
  "buildWhereQueryAndParams env st JUndefined = Inr (([], []), st)
   \<and> buildWhereQueryAndParams env st (JObj []) = Inr (([], []), st)
   \<and> buildWhereQueryAndParams env st (JArr []) = Inr (([], []), st)
   \<and> WhereQueryBuilder_build env sb JUndefined = Inr sb
   \<and> WhereQueryBuilder_build env sb (JObj []) = Inr sb
   \<and> WhereQueryBuilder_build env sb (JArr []) = Inr sb"
  by (simp add: WhereQueryBuilder_build_def objectKeysEmpty_def)

section \<open>Soft deletion\<close>

lemma fqbRepository_new [simp]: "fqbRepository (FindQueryBuilder_new repo) = repo"
  by (simp add: FindQueryBuilder_new_def Let_def)

text \<open>
  Claim C9. When the entity's metadata has no delete-date column, building with
  \<open>onlyDeleted = true\<close> gives the same result as building without \<open>onlyDeleted\<close>: the
  soft-delete step adds no condition to the builder, and with \<open>withDeleted\<close> absent the
  \<open>withDeleted\<close> find option stays unset.
\<close>

theorem C9_onlyDeleted_without_delete_column:
  assumes "deleteDateColumn (metadata (fqbRepository q)) = None"
  shows "FindQueryBuilder_build env q (Some (opts\<lparr>onlyDeleted := Some True\<rparr>))
           = FindQueryBuilder_build env q (Some (opts\<lparr>onlyDeleted := None\<rparr>))
       \<and> applySoftDelete (fqbRepository q) (opts\<lparr>onlyDeleted := Some True\<rparr>) b = b
       \<and> findWithDeleted (buildFindOptions (fqbRepository q) (opts\<lparr>onlyDeleted := Some True, withDeleted := None\<rparr>))
           = None"
  using assms
  by (simp add: FindQueryBuilder_build_def applyOptions_def applySoftDelete_def
        buildFindOptions_def isTrue_def Let_def
      cong: sum.case_cong prod.case_cong option.case_cong if_cong)

theorem C9_witness:
  "FindQueryBuilder_build exampleEnvironment (FindQueryBuilder_new profileRepository)
       (Some (noOptions\<lparr>onlyDeleted := Some True\<rparr>))
     = FindQueryBuilder_build exampleEnvironment (FindQueryBuilder_new profileRepository)
       (Some (noOptions\<lparr>onlyDeleted := None\<rparr>))
   \<and> applySoftDelete profileRepository (noOptions\<lparr>onlyDeleted := Some True\<rparr>)
       (createQueryBuilder ''Profile'') = createQueryBuilder ''Profile''
   \<and> findWithDeleted (buildFindOptions profileRepository (noOptions\<lparr>onlyDeleted := Some True, withDeleted := None\<rparr>))
       = None"
proof -
  have h: "deleteDateColumn (metadata (fqbRepository (FindQueryBuilder_new profileRepository))) = None"
    by (simp add: profileRepository_def profileEntity_def)
  show ?thesis
    using C9_onlyDeleted_without_delete_column
            [OF h, of exampleEnvironment noOptions "createQueryBuilder ''Profile''"]
    by simp
qed

section \<open>Parameter names\<close>

lemma digit_in: "digit n \<in> set ''0123456789''"
  unfolding digit_def by (rule nth_mem) simp

lemma digit_inj: "a < 10 \<Longrightarrow> b < 10 \<Longrightarrow> digit a = digit b \<Longrightarrow> a = b"
proof -
  assume a: "a < 10" and b: "b < 10" and e: "digit a = digit b"
  have d: "distinct ''0123456789''" by simp
  have "''0123456789'' ! a = ''0123456789'' ! b" using e a b by (simp add: digit_def)
  then show "a = b" using d a b by (simp add: nth_eq_iff_index_eq)
qed

lemma string_of_nat_digits: "set (string_of_nat n) \<subseteq> set ''0123456789''"
proof (induction n rule: string_of_nat.induct)
  case (1 n)
  show ?case
  proof (cases "n < 10")
    case True
    then show ?thesis using digit_in [of n] by (subst string_of_nat.simps) simp
  next
    case False
    then show ?thesis using 1 digit_in [of "n mod 10"] by (subst string_of_nat.simps) simp
  qed
qed

lemma string_of_nat_nonempty: "string_of_nat n \<noteq> []"
  by (subst string_of_nat.simps) simp

lemma string_of_nat_length1: "length (string_of_nat n) = Suc 0 \<longleftrightarrow> n < 10"
  using string_of_nat_nonempty [of "n div 10"]
  by (subst string_of_nat.simps) (auto simp: Suc_le_eq)

lemma string_of_nat_inj: "string_of_nat a = string_of_nat b \<Longrightarrow> a = b"
proof (induction a arbitrary: b rule: string_of_nat.induct)
  case (1 a)
  show ?case
  proof (cases "a < 10")
    case True
    then have "length (string_of_nat a) = Suc 0" by (simp add: string_of_nat_length1)
    then have b: "b < 10" using 1(2) by (simp add: string_of_nat_length1)
    from True b 1(2) have "digit a = digit b"
      by (simp add: string_of_nat.simps [of a] string_of_nat.simps [of b])
    then show ?thesis using True b by (rule digit_inj [rotated 2])
  next
    case False
    then have "length (string_of_nat a) \<noteq> Suc 0" by (simp add: string_of_nat_length1)
    then have b: "\<not> b < 10" using 1(2) by (simp add: string_of_nat_length1)
    from False b 1(2) have e: "string_of_nat (a div 10) @ [digit (a mod 10)]
        = string_of_nat (b div 10) @ [digit (b mod 10)]"
      by (simp add: string_of_nat.simps [of a] string_of_nat.simps [of b])
    then have "string_of_nat (a div 10) = string_of_nat (b div 10)" and d: "digit (a mod 10) = digit (b mod 10)"
      by simp_all
    then have "a div 10 = b div 10" using 1(1) [OF False] by simp
    moreover have "a mod 10 = b mod 10" using d by (intro digit_inj) simp_all
    ultimately show ?thesis by (metis div_mult_mod_eq)
  qed
qed

lemma underscore_not_digit: "CHR ''_'' \<notin> set (string_of_nat n)"
  using string_of_nat_digits [of n] by auto

lemma parameterNames_disjoint:
  assumes "a \<noteq> b"
  shows "parameterNames prefix a \<inter> parameterNames prefix b = {}"
proof -
  have 1: "string_of_nat a \<noteq> string_of_nat b" using assms string_of_nat_inj by blast
  have 2: "string_of_nat x \<noteq> string_of_nat y @ ''_0''" for x y
    using underscore_not_digit [of x] by (metis in_set_conv_decomp)
  have 3: "string_of_nat x \<noteq> string_of_nat y @ ''_1''" for x y
    using underscore_not_digit [of x] by (metis in_set_conv_decomp)
  show ?thesis
    using 1 2 [of a b] 2 [of b a] 3 [of a b] 3 [of b a]
    by (auto simp: parameterNames_def)
qed

lemma update_fresh: "k \<notin> fst ` set xs \<Longrightarrow> AList.update k v xs = xs @ [(k, v)]"
  by (induction xs) auto

lemma Object_assign_fresh:
  "distinct (map fst src) \<Longrightarrow> set (map fst src) \<inter> set (map fst tgt) = {} \<Longrightarrow>
   Object_assign tgt src = tgt @ src"
proof (induction src arbitrary: tgt)
  case Nil
  then show ?case by (simp add: Object_assign_def)
next
  case (Cons kv src)
  have fresh: "fst kv \<notin> fst ` set tgt" using Cons.prems(2) by auto
  have "Object_assign tgt (kv # src) = Object_assign (tgt @ [kv]) src"
    using update_fresh [OF fresh, of "snd kv"] by (simp add: Object_assign_def)
  also have "\<dots> = (tgt @ [kv]) @ src"
    using Cons.prems by (intro Cons.IH) auto
  finally show ?case by simp
qed

lemma Object_assign_Nil [simp]: "Object_assign tgt [] = tgt"
  by (simp add: Object_assign_def)

lemma parse_result:
  assumes "parseWhereObjectToQueryAndParams d wb col v operator = Inr ((q, ps), wb')"
  shows "wb' = wb\<lparr>paramIndex := paramIndex wb + 1\<rparr>
       \<and> q \<noteq> []
       \<and> distinct (map fst ps)
       \<and> set (map fst ps) \<subseteq> parameterNames (paramsPrefix wb) (paramIndex wb)
       \<and> length ps = parameterKeys (operator, v)"
  using assms
  by (cases operator)
     (auto simp: parseWhereObjectToQueryAndParams_def Let_def parameterNames_def
        parameterKeys_def generateLikeQuery_def
       split: jsval.splits if_splits option.splits list.splits)

lemma parametersIn_mono: "a \<le> a' \<Longrightarrow> b' \<le> b \<Longrightarrow> parametersIn p a' b' \<subseteq> parametersIn p a b"
  unfolding parametersIn_def by (intro UN_mono) auto

lemma parametersIn_disjoint: "b \<le> c \<Longrightarrow> parametersIn p a b \<inter> parametersIn p c d = {}"
proof -
  assume le: "b \<le> c"
  have "k \<in> {a ..< b} \<Longrightarrow> k' \<in> {c ..< d} \<Longrightarrow> parameterNames p k \<inter> parameterNames p k' = {}" for k k'
    using le by (intro parameterNames_disjoint) auto
  then show ?thesis unfolding parametersIn_def by blast
qed

lemma parameterNames_in: "parameterNames p k \<subseteq> parametersIn p k (Suc k)"
  by (auto simp: parametersIn_def)

lemma wellKeyed_append:
  assumes "wellKeyed p a b ps" and "wellKeyed p b c qs" and "a \<le> b" and "b \<le> c"
  shows "Object_assign ps qs = ps @ qs" and "wellKeyed p a c (ps @ qs)"
proof -
  have dis: "set (map fst qs) \<inter> set (map fst ps) = {}"
    using assms(1,2) parametersIn_disjoint [of b b p a c] unfolding wellKeyed_def by blast
  show "Object_assign ps qs = ps @ qs"
    using assms(2) dis by (intro Object_assign_fresh) (auto simp: wellKeyed_def)
  have "parametersIn p a b \<subseteq> parametersIn p a c" "parametersIn p b c \<subseteq> parametersIn p a c"
    using assms(3,4) by (intro parametersIn_mono; simp)+
  then show "wellKeyed p a c (ps @ qs)"
    using assms(1,2) dis unfolding wellKeyed_def by auto
qed

lemma wellKeyed_Nil [simp]: "wellKeyed p a b []"
  by (simp add: wellKeyed_def)

lemma wellKeyed_mono: "wellKeyed p a b ps \<Longrightarrow> b \<le> c \<Longrightarrow> wellKeyed p a c ps"
  using parametersIn_mono [of a a b c p] by (auto simp: wellKeyed_def)

lemma keyCount_append [simp]: "keyCount (xs @ ys) = keyCount xs + keyCount ys"
  by (simp add: keyCount_def)

lemma keyCount_Nil [simp]: "keyCount [] = 0"
  by (simp add: keyCount_def)

lemma keyCount_single [simp]: "keyCount [l] = parameterKeys l"
  by (simp add: keyCount_def)

lemma compiles_refl: "wellKeyed (paramsPrefix (snd st)) a (paramIndex (snd st)) (snd acc) \<Longrightarrow> compiles a [] st acc st acc"
  by (simp add: compiles_def)

lemma compiles_trans:
  assumes "compiles a ls1 st acc st1 acc1" and "compiles a ls2 st1 acc1 st2 acc2"
  shows "compiles a (ls1 @ ls2) st acc st2 acc2"
proof -
  have p1: "paramsPrefix (snd st1) = paramsPrefix (snd st)"
    and i1: "paramIndex (snd st1) = paramIndex (snd st) + length ls1"
    and l1: "length (snd acc1) = length (snd acc) + keyCount ls1"
    using assms(1) unfolding compiles_def by blast+
  have p2: "paramsPrefix (snd st2) = paramsPrefix (snd st1)"
    and i2: "paramIndex (snd st2) = paramIndex (snd st1) + length ls2"
    and w2: "wellKeyed (paramsPrefix (snd st1)) a (paramIndex (snd st2)) (snd acc2)"
    and l2: "length (snd acc2) = length (snd acc1) + keyCount ls2"
    using assms(2) unfolding compiles_def by blast+
  obtain new1 where n1: "fst acc1 = fst acc @ new1" "[] \<notin> set new1" "ls1 = [] \<longleftrightarrow> new1 = []"
    using assms(1) unfolding compiles_def by blast
  obtain new2 where n2: "fst acc2 = fst acc1 @ new2" "[] \<notin> set new2" "ls2 = [] \<longleftrightarrow> new2 = []"
    using assms(2) unfolding compiles_def by blast
  have n: "fst acc2 = fst acc @ (new1 @ new2) \<and> [] \<notin> set (new1 @ new2)
        \<and> (ls1 @ ls2 = [] \<longleftrightarrow> new1 @ new2 = [])"
    using n1 n2 by simp
  show ?thesis
    unfolding compiles_def
  proof (intro conjI)
    show "paramsPrefix (snd st2) = paramsPrefix (snd st)" using p1 p2 by simp
    show "paramIndex (snd st2) = paramIndex (snd st) + length (ls1 @ ls2)" using i1 i2 by simp
    show "wellKeyed (paramsPrefix (snd st)) a (paramIndex (snd st2)) (snd acc2)" using w2 p1 by simp
    show "length (snd acc2) = length (snd acc) + keyCount (ls1 @ ls2)" using l1 l2 by simp
    show "\<exists>new. fst acc2 = fst acc @ new \<and> [] \<notin> set new \<and> (ls1 @ ls2 = [] \<longleftrightarrow> new = [])"
      using n by blast
  qed
qed

lemma compiles_wellKeyed:
  "compiles a ls st acc st' acc' \<Longrightarrow> wellKeyed (paramsPrefix (snd st')) a (paramIndex (snd st')) (snd acc')"
  unfolding compiles_def by metis

lemma compiles_le:
  "compiles a ls st acc st' acc' \<Longrightarrow> paramIndex (snd st) \<le> paramIndex (snd st')"
  unfolding compiles_def by linarith

lemma compileComparison_compiles:
  assumes "compileComparison env st key v operator acc = Inr (acc', st')"
    and "wellKeyed (paramsPrefix (snd st)) a (paramIndex (snd st)) (snd acc)"
    and "a \<le> paramIndex (snd st)"
  shows "compiles a [(operator, v)] st acc st' acc'"
proof -
  obtain column h' where g: "getFieldWithAlias env (fst st) key = (column, h')"
    by (cases "getFieldWithAlias env (fst st) key")
  obtain q ps wb' where p: "parseWhereObjectToQueryAndParams (dbType h') (snd st) column v operator = Inr ((q, ps), wb')"
    and acc': "acc' = (fst acc @ [q], Object_assign (snd acc) ps)" and st': "st' = (h', wb')"
    and q: "q \<noteq> []"
    using assms(1) g parse_result
    by (fastforce simp: compileComparison_def split: sum.splits prod.splits if_splits)
  note r = parse_result [OF p]
  let ?i = "paramIndex (snd st)" and ?p = "paramsPrefix (snd st)"
  have wk: "wellKeyed ?p ?i (Suc ?i) ps"
    using r parameterNames_in [of ?p ?i] unfolding wellKeyed_def by blast
  have 1: "Object_assign (snd acc) ps = snd acc @ ps" and 2: "wellKeyed ?p a (Suc ?i) (snd acc @ ps)"
    using wellKeyed_append [OF assms(2) wk assms(3)] by simp_all
  show ?thesis
    unfolding compiles_def using r 1 2 q acc' st' by simp
qed

lemma forOperators_compiles:
  assumes "forOperators env st key ops acc = Inr (acc', st')"
    and "wellKeyed (paramsPrefix (snd st)) a (paramIndex (snd st)) (snd acc)"
    and "a \<le> paramIndex (snd st)"
  shows "compiles a (map (\<lambda>kv. (asWhereOperatorEnum env (fst kv), snd kv)) ops) st acc st' acc'"
  using assms
proof (induction ops arbitrary: st acc)
  case Nil
  then show ?case by (simp add: compiles_refl)
next
  case (Cons kv ops)
  obtain op v where kv: "kv = (op, v)" by (cases kv)
  obtain acc1 st1 where 1: "compileComparison env st key v (asWhereOperatorEnum env op) acc = Inr (acc1, st1)"
    and 2: "forOperators env st1 key ops acc1 = Inr (acc', st')"
    using Cons.prems(1) kv by (auto split: sum.splits)
  have c1: "compiles a [(asWhereOperatorEnum env op, v)] st acc st1 acc1"
    using compileComparison_compiles [OF 1 Cons.prems(2,3)] .
  have c2: "compiles a (map (\<lambda>kv. (asWhereOperatorEnum env (fst kv), snd kv)) ops) st1 acc1 st' acc'"
    using compiles_wellKeyed [OF c1] compiles_le [OF c1] Cons.prems(3)
    by (intro Cons.IH [OF 2]) simp_all
  show ?case using compiles_trans [OF c1 c2] kv by simp
qed

lemma compileField_compiles:
  assumes "compileField env st key v acc = Inr (acc', st')"
    and "wellKeyed (paramsPrefix (snd st)) a (paramIndex (snd st)) (snd acc)"
    and "a \<le> paramIndex (snd st)"
  shows "compiles a (fieldLeaves env v) st acc st' acc'"
proof (cases "\<exists>ops. v = JObj ops")
  case True
  then obtain ops where v: "v = JObj ops" by blast
  then have "forOperators env st key ops acc = Inr (acc', st')"
    using assms(1) by (simp add: compileField_def)
  then show ?thesis
    using forOperators_compiles [OF _ assms(2,3)] v by (simp add: fieldLeaves_def)
next
  case False
  then have "compileComparison env st key v EQ acc = Inr (acc', st')" and "fieldLeaves env v = [(EQ, v)]"
    using assms(1) by (cases v; simp add: compileField_def fieldLeaves_def)+
  then show ?thesis using compileComparison_compiles assms(2,3) by simp
qed

lemma forIndices_compiles:
  assumes "forIndices env st kvs acc = Inr (acc', st')"
    and "wellKeyed (paramsPrefix (snd st)) a (paramIndex (snd st)) (snd acc)"
    and "a \<le> paramIndex (snd st)"
  shows "compiles a (concat (map (\<lambda>kv. fieldLeaves env (snd kv)) kvs)) st acc st' acc'"
  using assms
proof (induction kvs arbitrary: st acc)
  case Nil
  then show ?case by (simp add: compiles_refl)
next
  case (Cons kv kvs)
  obtain key v where kv: "kv = (key, v)" by (cases kv)
  obtain acc1 st1 where 1: "compileField env st key v acc = Inr (acc1, st1)"
    and 2: "forIndices env st1 kvs acc1 = Inr (acc', st')"
    using Cons.prems(1) kv by (auto split: sum.splits)
  have c1: "compiles a (fieldLeaves env v) st acc st1 acc1"
    using compileField_compiles [OF 1 Cons.prems(2,3)] .
  have c2: "compiles a (concat (map (\<lambda>kv. fieldLeaves env (snd kv)) kvs)) st1 acc1 st' acc'"
    using compiles_wellKeyed [OF c1] compiles_le [OF c1] Cons.prems(3)
    by (intro Cons.IH [OF 2]) simp_all
  show ?case using compiles_trans [OF c1 c2] kv by simp
qed

section \<open>Induction over the compilation of an expression\<close>

lemma forKeys_field:
  "key \<noteq> ''$and'' \<Longrightarrow> key \<noteq> ''$or'' \<Longrightarrow>
   forKeys env st ((key, v) # kvs) acc =
     (case compileField env st key v acc of
        Inl e \<Rightarrow> Inl e
      | Inr (acc', st') \<Rightarrow> forKeys env st' kvs acc')"
  by simp

lemma forKeys_skip:
  "key = ''$and'' \<or> key = ''$or'' \<Longrightarrow> \<not> (\<exists>subs. v = JArr subs \<and> subs \<noteq> []) \<Longrightarrow>
   forKeys env st ((key, v) # kvs) acc = forKeys env st kvs acc"
  by (cases v) auto

lemma forKeys_group:
  "key = ''$and'' \<or> key = ''$or'' \<Longrightarrow> subs \<noteq> [] \<Longrightarrow>
   forKeys env st ((key, JArr subs) # kvs) acc =
     (case forSubs env st subs ([], snd acc) of
        Inl e \<Rightarrow> Inl e
      | Inr ((subParts, ps), st') \<Rightarrow>
          forKeys env st' kvs
            (if subParts \<noteq> [] then fst acc @ [groupQuery key subParts] else fst acc, ps))"
  by (simp split: sum.splits prod.splits)

lemma where_induct [case_names Object Other Nil Skip Group Field SubsNil SubsCons]:
  assumes Object: "\<And>env st kvs. Q env st kvs ([], []) \<Longrightarrow> P env st (JObj kvs)"
    and Other: "\<And>env st v. (\<And>kvs. v \<noteq> JObj kvs) \<Longrightarrow> P env st v"
    and Nil: "\<And>env st acc. Q env st [] acc"
    and Skip: "\<And>env st key v kvs acc.
        key = ''$and'' \<or> key = ''$or'' \<Longrightarrow> \<not> (\<exists>subs. v = JArr subs \<and> subs \<noteq> []) \<Longrightarrow>
        Q env st kvs acc \<Longrightarrow> Q env st ((key, v) # kvs) acc"
    and Group: "\<And>env st key subs kvs acc.
        key = ''$and'' \<or> key = ''$or'' \<Longrightarrow> subs \<noteq> [] \<Longrightarrow>
        R env st subs ([], snd acc) \<Longrightarrow>
        (\<And>subParts ps st'. forSubs env st subs ([], snd acc) = Inr ((subParts, ps), st') \<Longrightarrow>
           Q env st' kvs (if subParts \<noteq> [] then fst acc @ [groupQuery key subParts] else fst acc, ps)) \<Longrightarrow>
        Q env st ((key, JArr subs) # kvs) acc"
    and Field: "\<And>env st key v kvs acc.
        key \<noteq> ''$and'' \<Longrightarrow> key \<noteq> ''$or'' \<Longrightarrow>
        (\<And>acc' st'. compileField env st key v acc = Inr (acc', st') \<Longrightarrow> Q env st' kvs acc') \<Longrightarrow>
        Q env st ((key, v) # kvs) acc"
    and SubsNil: "\<And>env st acc. R env st [] acc"
    and SubsCons: "\<And>env st sub subs acc.
        P env st sub \<Longrightarrow>
        (\<And>query subParams st'. buildWhereQueryAndParams env st sub = Inr ((query, subParams), st') \<Longrightarrow>
           R env st' subs (if query \<noteq> [] then (fst acc @ [''('' @ query @ '')''], Object_assign (snd acc) subParams)
                           else acc)) \<Longrightarrow>
        R env st (sub # subs) acc"
  shows "P env0 st0 v0" and "Q env1 st1 kvs1 acc1" and "R env2 st2 subs2 acc2"
proof (induction env0 st0 v0 and env1 st1 kvs1 acc1 and env2 st2 subs2 acc2
        rule: buildWhereQueryAndParams_forKeys_forSubs.induct)
  case (1 env st kvs)
  show ?case
  proof (cases "kvs = []")
    case True
    then show ?thesis using Object [OF Nil] by simp
  next
    case False
    then show ?thesis using 1 Object by simp
  qed
next
  case (9 env st key v kvs acc)
  show ?case
  proof (cases "key = ''$and'' \<or> key = ''$or''")
    case False
    then show ?thesis using 9(10) by (intro Field) auto
  next
    case marker: True
    show ?thesis
    proof (cases "\<exists>subs. v = JArr subs \<and> subs \<noteq> []")
      case False
      have "Q env st kvs acc"
        using marker False 9(1-6,9) by (cases v) auto
      then show ?thesis using marker False by (intro Skip)
    next
      case True
      then obtain subs where v: "v = JArr subs" and ne: "subs \<noteq> []" by blast
      have r: "R env st subs ([], snd acc)" using 9(7) [OF marker v] ne by simp
      have q: "\<And>subParts ps st'. forSubs env st subs ([], snd acc) = Inr ((subParts, ps), st') \<Longrightarrow>
           Q env st' kvs (if subParts \<noteq> [] then fst acc @ [groupQuery key subParts] else fst acc, ps)"
        using 9(8) [OF marker v] ne by simp
      show ?thesis unfolding v using marker ne r q by (rule Group)
    qed
  qed
next
  case (11 env st sub subs acc)
  show ?case
    using 11(1) by (rule SubsCons) (use 11(2) in simp)
qed (auto intro: Other Nil SubsNil)


lemma join_nonempty: "qp \<noteq> [] \<Longrightarrow> [] \<notin> set qp \<Longrightarrow> join sep qp \<noteq> []"
  by (induction sep qp rule: join.induct) auto

lemma groupQuery_nonempty:
  assumes "subParts \<noteq> []" and "[] \<notin> set subParts"
  shows "groupQuery key subParts \<noteq> []"
proof -
  have j: "join sep subParts \<noteq> []" for sep
    using assms by (rule join_nonempty)
  show ?thesis
    by (cases "length subParts > 1") (simp_all add: groupQuery_def Let_def j)
qed

lemma finish_Inr:
  assumes "finish r = Inr ((q, ps), st')"
  shows "\<exists>qp. r = Inr ((qp, ps), st') \<and> q = join '' AND '' qp"
proof (cases r)
  case (Inl e)
  then show ?thesis using assms by (simp add: finish_def)
next
  case (Inr x)
  then obtain qp ps0 st0 where x: "r = Inr ((qp, ps0), st0)" by (cases x) auto
  have "join '' AND '' [] = []" by simp
  then show ?thesis using assms x by (cases "qp = []") (simp_all add: finish_def)
qed

lemma indexed_leaves:
  "concat (map (\<lambda>kv. fieldLeaves env (snd kv)) (indexed xs)) = concat (map (fieldLeaves env) xs)"
proof -
  have 1: "map snd (indexed xs) = xs" by (simp add: indexed_def)
  have "map (\<lambda>kv. fieldLeaves env (snd kv)) (indexed xs) = map (fieldLeaves env) (map snd (indexed xs))"
    by (simp add: comp_def)
  then show ?thesis using 1 by simp
qed

lemma where_compiles:
  shows "\<forall>q ps st'. buildWhereQueryAndParams env st v = Inr ((q, ps), st') \<longrightarrow>
           (\<exists>qp. compiles (paramIndex (snd st)) (leaves env v) st ([], []) st' (qp, ps)
                 \<and> q = join '' AND '' qp)"
    and "\<forall>a acc' st'. forKeys env1 st1 kvs acc1 = Inr (acc', st') \<longrightarrow>
           wellKeyed (paramsPrefix (snd st1)) a (paramIndex (snd st1)) (snd acc1) \<longrightarrow>
           a \<le> paramIndex (snd st1) \<longrightarrow>
           compiles a (leavesKeys env1 kvs) st1 acc1 st' acc'"
    and "\<forall>a acc' st'. forSubs env2 st2 subs acc2 = Inr (acc', st') \<longrightarrow>
           wellKeyed (paramsPrefix (snd st2)) a (paramIndex (snd st2)) (snd acc2) \<longrightarrow>
           a \<le> paramIndex (snd st2) \<longrightarrow>
           compiles a (leavesSubs env2 subs) st2 acc2 st' acc'"
proof (induction env st v and env1 st1 kvs acc1 and env2 st2 subs acc2 rule: where_induct)
  case (Object env st kvs)
  show ?case
  proof (intro allI impI)
    fix q ps st'
    assume r: "buildWhereQueryAndParams env st (JObj kvs) = Inr ((q, ps), st')"
    show "\<exists>qp. compiles (paramIndex (snd st)) (leaves env (JObj kvs)) st ([], []) st' (qp, ps)
               \<and> q = join '' AND '' qp"
    proof (cases "kvs = []")
      case True
      then show ?thesis using r by (intro exI [of _ "[]"]) (auto simp: compiles_refl)
    next
      case False
      then have "finish (forKeys env st kvs ([], [])) = Inr ((q, ps), st')"
        using r by simp
      then obtain qp where f: "forKeys env st kvs ([], []) = Inr ((qp, ps), st')" and q: "q = join '' AND '' qp"
        using finish_Inr by blast
      have "compiles (paramIndex (snd st)) (leavesKeys env kvs) st ([], []) st' (qp, ps)"
        using Object [rule_format, OF f, of "paramIndex (snd st)"] by simp
      then show ?thesis using q by auto
    qed
  qed
next
  case (Other env st v)
  show ?case
  proof (intro allI impI)
    fix q ps st'
    assume r: "buildWhereQueryAndParams env st v = Inr ((q, ps), st')"
    show "\<exists>qp. compiles (paramIndex (snd st)) (leaves env v) st ([], []) st' (qp, ps)
               \<and> q = join '' AND '' qp"
    proof (cases v)
      case (JArr xs)
      show ?thesis
      proof (cases "xs = []")
        case True
        then show ?thesis using r JArr by (intro exI [of _ "[]"]) (auto simp: compiles_refl)
      next
        case False
        then have "finish (forIndices env st (indexed xs) ([], [])) = Inr ((q, ps), st')"
          using r JArr by simp
        then obtain qp where f: "forIndices env st (indexed xs) ([], []) = Inr ((qp, ps), st')"
          and q: "q = join '' AND '' qp"
          using finish_Inr by blast
        have "compiles (paramIndex (snd st)) (concat (map (fieldLeaves env) xs)) st ([], []) st' (qp, ps)"
          using forIndices_compiles [OF f, of "paramIndex (snd st)"] by (simp add: indexed_leaves)
        then show ?thesis using q JArr by auto
      qed
    next
      case (JStr s)
      show ?thesis
      proof (cases "s = []")
        case True
        then show ?thesis using r JStr by (intro exI [of _ "[]"]) (auto simp: compiles_refl)
      next
        case False
        then have "finish (forIndices env st (indexed (map (\<lambda>c. JStr [c]) s)) ([], [])) = Inr ((q, ps), st')"
          using r JStr by simp
        then obtain qp where f: "forIndices env st (indexed (map (\<lambda>c. JStr [c]) s)) ([], []) = Inr ((qp, ps), st')"
          and q: "q = join '' AND '' qp"
          using finish_Inr by blast
        have "compiles (paramIndex (snd st)) (concat (map (fieldLeaves env) (map (\<lambda>c. JStr [c]) s))) st ([], []) st' (qp, ps)"
          using forIndices_compiles [OF f, of "paramIndex (snd st)"] by (simp add: indexed_leaves)
        then show ?thesis using q JStr by (auto simp: comp_def)
      qed
    next
      case (JObj kvs)
      then show ?thesis using Other by simp
    qed (use r in \<open>auto simp: compiles_refl intro!: exI [of _ "[]"]\<close>)
  qed
next
  case (Nil env st acc)
  then show ?case by (simp add: compiles_refl)
next
  case (Skip env st key v kvs acc)
  have "leavesKeys env ((key, v) # kvs) = leavesKeys env kvs"
    using Skip(1,2) by (cases v) auto
  moreover have "forKeys env st ((key, v) # kvs) acc = forKeys env st kvs acc"
    using Skip(1,2) by (rule forKeys_skip)
  ultimately show ?case using Skip(3) by presburger
next
  case (Group env st key subs kvs acc)
  show ?case
  proof (intro allI impI)
    fix a acc' st'
    assume r: "forKeys env st ((key, JArr subs) # kvs) acc = Inr (acc', st')"
      and w: "wellKeyed (paramsPrefix (snd st)) a (paramIndex (snd st)) (snd acc)"
      and le: "a \<le> paramIndex (snd st)"
    obtain subParts ps st1 where s: "forSubs env st subs ([], snd acc) = Inr ((subParts, ps), st1)"
      and k: "forKeys env st1 kvs
                (if subParts \<noteq> [] then fst acc @ [groupQuery key subParts] else fst acc, ps) = Inr (acc', st')"
      using r unfolding forKeys_group [OF Group(1,2)] by (auto split: sum.splits prod.splits)
    let ?acc1 = "(if subParts \<noteq> [] then fst acc @ [groupQuery key subParts] else fst acc, ps)"
    have c0: "compiles a (leavesSubs env subs) st ([], snd acc) st1 (subParts, ps)"
      using Group(3) [rule_format, OF s, of a] w le by simp
    have c1: "compiles a (leavesSubs env subs) st acc st1 ?acc1"
    proof -
      have ne: "[] \<notin> set subParts" and iff: "leavesSubs env subs = [] \<longleftrightarrow> subParts = []"
        using c0 unfolding compiles_def by auto
      have "\<exists>new. fst ?acc1 = fst acc @ new \<and> [] \<notin> set new \<and> (leavesSubs env subs = [] \<longleftrightarrow> new = [])"
      proof (cases "subParts = []")
        case True
        then show ?thesis using iff by simp
      next
        case False
        then show ?thesis using iff groupQuery_nonempty [OF False ne, of key]
          by (intro exI [of _ "[groupQuery key subParts]"]) simp
      qed
      then show ?thesis using c0 unfolding compiles_def by auto
    qed
    have c2: "compiles a (leavesKeys env kvs) st1 ?acc1 st' acc'"
      using Group(4) [OF s, rule_format, OF k, of a] compiles_wellKeyed [OF c1] compiles_le [OF c1] le
      by simp
    have "leavesKeys env ((key, JArr subs) # kvs) = leavesSubs env subs @ leavesKeys env kvs"
      using Group(1) by simp
    then show "compiles a (leavesKeys env ((key, JArr subs) # kvs)) st acc st' acc'"
      using compiles_trans [OF c1 c2] by simp
  qed
next
  case (Field env st key v kvs acc)
  show ?case
  proof (intro allI impI)
    fix a acc' st'
    assume r: "forKeys env st ((key, v) # kvs) acc = Inr (acc', st')"
      and w: "wellKeyed (paramsPrefix (snd st)) a (paramIndex (snd st)) (snd acc)"
      and le: "a \<le> paramIndex (snd st)"
    obtain acc1 st1 where f: "compileField env st key v acc = Inr (acc1, st1)"
      and k: "forKeys env st1 kvs acc1 = Inr (acc', st')"
      using r unfolding forKeys_field [OF Field(1,2)] by (auto split: sum.splits prod.splits)
    have c1: "compiles a (fieldLeaves env v) st acc st1 acc1"
      using compileField_compiles [OF f w le] .
    have c2: "compiles a (leavesKeys env kvs) st1 acc1 st' acc'"
      using Field(3) [OF f, rule_format, OF k, of a] compiles_wellKeyed [OF c1] compiles_le [OF c1] le
      by simp
    have "leavesKeys env ((key, v) # kvs) = fieldLeaves env v @ leavesKeys env kvs"
      using Field(1,2) by simp
    then show "compiles a (leavesKeys env ((key, v) # kvs)) st acc st' acc'"
      using compiles_trans [OF c1 c2] by simp
  qed
next
  case (SubsNil env st acc)
  then show ?case by (simp add: compiles_refl)
next
  case (SubsCons env st sub subs acc)
  show ?case
  proof (intro allI impI)
    fix a acc' st'
    assume r: "forSubs env st (sub # subs) acc = Inr (acc', st')"
      and w: "wellKeyed (paramsPrefix (snd st)) a (paramIndex (snd st)) (snd acc)"
      and le: "a \<le> paramIndex (snd st)"
    obtain q ps st1 where b: "buildWhereQueryAndParams env st sub = Inr ((q, ps), st1)"
      and k: "forSubs env st1 subs
                (if q \<noteq> [] then (fst acc @ [''('' @ q @ '')''], Object_assign (snd acc) ps) else acc)
              = Inr (acc', st')"
      using r unfolding forSubs.simps by (auto split: sum.splits prod.splits)
    let ?acc1 = "(if q \<noteq> [] then (fst acc @ [''('' @ q @ '')''], Object_assign (snd acc) ps) else acc)"
    obtain qp where c0: "compiles (paramIndex (snd st)) (leaves env sub) st ([], []) st1 (qp, ps)"
      and q: "q = join '' AND '' qp"
      using SubsCons(1) [rule_format, OF b] by blast
    have p1: "paramsPrefix (snd st1) = paramsPrefix (snd st)"
      and i1: "paramIndex (snd st1) = paramIndex (snd st) + length (leaves env sub)"
      and w1: "wellKeyed (paramsPrefix (snd st)) (paramIndex (snd st)) (paramIndex (snd st1)) ps"
      and l1: "length ps = keyCount (leaves env sub)"
      and ne: "[] \<notin> set qp" and iff: "leaves env sub = [] \<longleftrightarrow> qp = []"
      using c0 unfolding compiles_def by auto
    have qe: "q = [] \<longleftrightarrow> qp = []" using q join_nonempty [OF _ ne] by auto
    have c1: "compiles a (leaves env sub) st acc st1 ?acc1"
    proof (cases "q = []")
      case True
      then have "leaves env sub = []" using qe iff by simp
      then show ?thesis using True i1 p1 w unfolding compiles_def by simp
    next
      case False
      have le1: "paramIndex (snd st) \<le> paramIndex (snd st1)" using i1 by simp
      note ap = wellKeyed_append [OF w w1 le le1]
      have "leaves env sub \<noteq> []" using False qe iff by simp
      then show ?thesis using False ap p1 i1 l1 unfolding compiles_def by simp
    qed
    have c2: "compiles a (leavesSubs env subs) st1 ?acc1 st' acc'"
      using SubsCons(2) [OF b, rule_format, OF k, of a] compiles_wellKeyed [OF c1] compiles_le [OF c1] le
      by simp
    show "compiles a (leavesSubs env (sub # subs)) st acc st' acc'"
      using compiles_trans [OF c1 c2] by simp
  qed
qed

section \<open>Parameter names of a compiled expression\<close>

text \<open>
  Claim C5, as the code has it. Every comparison takes a fresh name from the one counter of
  the compiler, which advances by one per leaf comparison. When an expression compiles, the
  keys of its parameter map are pairwise distinct, each is the name of one of the expression's
  comparisons (the name, or the name followed by \<open>_0\<close> or \<open>_1\<close>), and their number is the sum
  over the leaves of two for a range, none for a null or boolean test or a membership or
  array operator on the empty array, and one for any other comparison.
\<close>

theorem C5_parameter_keys:
  assumes "buildWhereQueryAndParams env st c = Inr ((q, ps), st')"
  shows "paramIndex (snd st') = paramIndex (snd st) + length (leaves env c)
       \<and> distinct (map fst ps)
       \<and> length ps = sum_list (map parameterKeys (leaves env c))
       \<and> set (map fst ps)
           \<subseteq> (\<Union>k \<in> {paramIndex (snd st) ..< paramIndex (snd st')}. parameterNames (paramsPrefix (snd st)) k)"
proof -
  obtain qp where c: "compiles (paramIndex (snd st)) (leaves env c) st ([], []) st' (qp, ps)"
    using where_compiles(1) [rule_format, OF assms] by blast
  have 1: "paramIndex (snd st') = paramIndex (snd st) + length (leaves env c)"
    using c by (simp add: compiles_def)
  have 2: "distinct (map fst ps)"
    using c by (simp add: compiles_def wellKeyed_def)
  have 3: "length ps = sum_list (map parameterKeys (leaves env c))"
    using c by (simp add: compiles_def keyCount_def)
  have 4: "set (map fst ps)
      \<subseteq> (\<Union>k \<in> {paramIndex (snd st) ..< paramIndex (snd st')}. parameterNames (paramsPrefix (snd st)) k)"
    using c unfolding compiles_def wellKeyed_def parametersIn_def by (elim conjE) simp
  show ?thesis by (intro conjI 1 2 3 4)
qed

lemma sample_compiled:
  "compiledOf (buildWhereQueryAndParams exampleEnvironment (userHelper, WhereQueryBuilder_new) sampleFilter)
     = Inr (''(('' @ [CHR 0x22] @ ''User'' @ [CHR 0x22] @ ''.'' @ [CHR 0x22] @ ''status'' @ [CHR 0x22]
              @ '' = :where_param_0 AND '' @ [CHR 0x22] @ ''User'' @ [CHR 0x22] @ ''.'' @ [CHR 0x22]
              @ ''status'' @ [CHR 0x22] @ '' != :where_param_1) AND (''
              @ [CHR 0x22] @ ''User'' @ [CHR 0x22] @ ''.'' @ [CHR 0x22] @ ''name'' @ [CHR 0x22]
              @ '' BETWEEN :where_param_2_0 AND :where_param_2_1) AND (''
              @ [CHR 0x22] @ ''User'' @ [CHR 0x22] @ ''.'' @ [CHR 0x22] @ ''deletedAt'' @ [CHR 0x22]
              @ '' IS NULL))'',
            [(''where_param_0'', JStr ''active''), (''where_param_1'', JStr ''banned''),
             (''where_param_2_0'', JStr ''A''), (''where_param_2_1'', JStr ''M'')])"
  by (simp add: sampleFilter_def example_defs helper_defs where_defs string_of_nat.simps)


text \<open>A run of C5: four comparisons, four keys, the counter at four.\<close>

theorem C5_witness:
  "compiledOf (buildWhereQueryAndParams exampleEnvironment (userHelper, WhereQueryBuilder_new) sampleFilter)
     = Inr (''(('' @ [CHR 0x22] @ ''User'' @ [CHR 0x22] @ ''.'' @ [CHR 0x22] @ ''status'' @ [CHR 0x22]
              @ '' = :where_param_0 AND '' @ [CHR 0x22] @ ''User'' @ [CHR 0x22] @ ''.'' @ [CHR 0x22]
              @ ''status'' @ [CHR 0x22] @ '' != :where_param_1) AND (''
              @ [CHR 0x22] @ ''User'' @ [CHR 0x22] @ ''.'' @ [CHR 0x22] @ ''name'' @ [CHR 0x22]
              @ '' BETWEEN :where_param_2_0 AND :where_param_2_1) AND (''
              @ [CHR 0x22] @ ''User'' @ [CHR 0x22] @ ''.'' @ [CHR 0x22] @ ''deletedAt'' @ [CHR 0x22]
              @ '' IS NULL))'',
            [(''where_param_0'', JStr ''active''), (''where_param_1'', JStr ''banned''),
             (''where_param_2_0'', JStr ''A''), (''where_param_2_1'', JStr ''M'')])
   \<and> counterOf (buildWhereQueryAndParams exampleEnvironment (userHelper, WhereQueryBuilder_new) sampleFilter)
     = Some (0 + length (leaves exampleEnvironment sampleFilter))
   \<and> length (leaves exampleEnvironment sampleFilter) = 4
   \<and> sum_list (map parameterKeys (leaves exampleEnvironment sampleFilter)) = 4"
proof -
  let ?r = "buildWhereQueryAndParams exampleEnvironment (userHelper, WhereQueryBuilder_new) sampleFilter"
  note e = sample_compiled
  then obtain q ps st' where r: "?r = Inr ((q, ps), st')"
    by (cases ?r) (auto simp: compiledOf_def)
  have i: "paramIndex (snd (userHelper, WhereQueryBuilder_new)) = 0"
    by (simp add: WhereQueryBuilder_new_def)
  have c: "counterOf ?r = Some (0 + length (leaves exampleEnvironment sampleFilter))"
    using C5_parameter_keys [OF r] i by (simp add: r counterOf_def)
  have l: "leaves exampleEnvironment sampleFilter
      = [(EQ, JStr ''active''), (NOT_EQ, JStr ''banned''), (BETWEEN, JArr [JStr ''A'', JStr ''M'']),
         (IS_NULL, JBool True)]"
    by (simp add: sampleFilter_def fieldLeaves_def exampleEnvironment_def requestOperator_def)
  show ?thesis using e c by (simp add: l parameterKeys_def)
qed

text \<open>
  The claim as stated, that N leaf comparisons give N keys, fails for a null test: one
  comparison, no parameter.
\<close>

theorem C5_counterexample:
  "compiledOf (buildWhereQueryAndParams exampleEnvironment (userHelper, WhereQueryBuilder_new) nullFilter)
     = Inr ([CHR 0x22] @ ''User'' @ [CHR 0x22] @ ''.'' @ [CHR 0x22] @ ''deletedAt'' @ [CHR 0x22]
              @ '' IS NULL'', [])
   \<and> leaves exampleEnvironment nullFilter = [(IS_NULL, JBool True)]"
  by (simp add: nullFilter_def example_defs helper_defs where_defs fieldLeaves_def)

section \<open>Groups\<close>

lemma forSubs_compileElements:
  assumes "compileElements env st subs = Inr (cs, st')"
  shows "forSubs env st subs acc =
           Inr ((fst acc @ map (\<lambda>c. ''('' @ fst c @ '')'') (surviving cs),
                 foldl Object_assign (snd acc) (map snd (surviving cs))), st')"
  using assms
proof (induction subs arbitrary: st acc cs)
  case Nil
  then show ?case by (simp add: surviving_def)
next
  case (Cons sub subs)
  obtain c st1 cs1 where b: "buildWhereQueryAndParams env st sub = Inr (c, st1)"
    and r: "compileElements env st1 subs = Inr (cs1, st')" and cs: "cs = c # cs1"
    using Cons.prems by (auto split: sum.splits prod.splits)
  obtain q ps where c: "c = (q, ps)" by (cases c)
  show ?case
  proof (cases "q = []")
    case True
    then show ?thesis using b c cs Cons.IH [OF r] by (simp add: surviving_def)
  next
    case False
    then show ?thesis using b c cs Cons.IH [OF r] by (simp add: surviving_def)
  qed
qed

lemma forSubs_error:
  assumes "compileElements env st subs = Inl e"
  shows "forSubs env st subs acc = Inl e"
  using assms
proof (induction subs arbitrary: st acc)
  case Nil
  then show ?case by simp
next
  case (Cons sub subs)
  show ?case
  proof (cases "buildWhereQueryAndParams env st sub")
    case (Inl e')
    then show ?thesis using Cons.prems by simp
  next
    case (Inr x)
    then obtain q ps st1 where b: "buildWhereQueryAndParams env st sub = Inr ((q, ps), st1)"
      by (cases x) auto
    then have "compileElements env st1 subs = Inl e"
      using Cons.prems by (auto split: sum.splits)
    then show ?thesis using b Cons.IH by simp
  qed
qed

lemma groupQuery_groupAsCompiled:
  "key = ''$and'' \<or> key = ''$or'' \<Longrightarrow>
   groupQuery key (map (\<lambda>q. ''('' @ q @ '')'') fragments) = groupAsCompiled key fragments"
  by (simp add: groupQuery_def groupAsCompiled_def connective_def Let_def)

text \<open>
  Claim C8, as the code has it. The elements of an \<open>$and\<close> or \<open>$or\<close> group are compiled in
  turn and those that compile to the empty fragment are discarded. Every surviving fragment
  is put in parentheses of its own, the parenthesised fragments are joined with the group's
  connective, and the joined result is put in one more pair of parentheses only when more
  than one fragment survives; with no survivor the group contributes nothing. The parameters
  of the survivors are merged in order, and an error of an element is the error of the group.
  This holds for a group alone in its object and for a group among other keys.
\<close>

theorem C8_group_fragment:
  assumes "key = ''$and'' \<or> key = ''$or''"
  shows "(compileElements env st subs = Inr (cs, st') \<longrightarrow>
            buildWhereQueryAndParams env st (JObj [(key, JArr subs)])
              = Inr ((groupAsCompiled key (map fst (surviving cs)), assignAll (map snd (surviving cs))), st'))
       \<and> (compileElements env st subs = Inl e \<longrightarrow>
            buildWhereQueryAndParams env st (JObj [(key, JArr subs)]) = Inl e)
       \<and> (compileElements env st subs = Inr (cs, st') \<longrightarrow>
            forKeys env st ((key, JArr subs) # kvs) acc
              = forKeys env st' kvs
                  (if surviving cs = [] then fst acc
                   else fst acc @ [groupAsCompiled key (map fst (surviving cs))],
                   foldl Object_assign (snd acc) (map snd (surviving cs))))"
proof (intro conjI impI)
  assume r: "compileElements env st subs = Inr (cs, st')"
  show "buildWhereQueryAndParams env st (JObj [(key, JArr subs)])
          = Inr ((groupAsCompiled key (map fst (surviving cs)), assignAll (map snd (surviving cs))), st')"
  proof (cases "subs = []")
    case True
    then show ?thesis using r assms
      by (auto simp: finish_def surviving_def groupAsCompiled_def assignAll_def)
  next
    case False
    have f: "forSubs env st subs ([], []) =
               Inr ((map (\<lambda>q. ''('' @ q @ '')'') (map fst (surviving cs)), assignAll (map snd (surviving cs))), st')"
      using forSubs_compileElements [OF r, of "([], [])"] by (simp add: assignAll_def comp_def)
    show ?thesis
    proof (cases "surviving cs = []")
      case True
      then show ?thesis using f False assms
        by (auto simp: finish_def groupAsCompiled_def)
    next
      case ne: False
      then show ?thesis using f False assms groupQuery_groupAsCompiled [OF assms, of "map fst (surviving cs)"]
        by (auto simp: finish_def)
    qed
  qed
next
  assume r: "compileElements env st subs = Inl e"
  then have "subs \<noteq> []" by auto
  then show "buildWhereQueryAndParams env st (JObj [(key, JArr subs)]) = Inl e"
    using forSubs_error [OF r, of "([], [])"] assms by (auto simp: finish_def)
next
  assume r: "compileElements env st subs = Inr (cs, st')"
  show "forKeys env st ((key, JArr subs) # kvs) acc
          = forKeys env st' kvs
              (if surviving cs = [] then fst acc
               else fst acc @ [groupAsCompiled key (map fst (surviving cs))],
               foldl Object_assign (snd acc) (map snd (surviving cs)))"
  proof (cases "subs = []")
    case True
    then show ?thesis using r assms by (auto simp: surviving_def)
  next
    case False
    have f: "forSubs env st subs ([], snd acc) =
               Inr ((map (\<lambda>q. ''('' @ q @ '')'') (map fst (surviving cs)),
                     foldl Object_assign (snd acc) (map snd (surviving cs))), st')"
      using forSubs_compileElements [OF r, of "([], snd acc)"] by (simp add: comp_def)
    show ?thesis
      unfolding forKeys_group [OF assms False] f
      using groupQuery_groupAsCompiled [OF assms, of "map fst (surviving cs)"] by simp
  qed
qed


lemma pair_elements:
  "map_sum id fst (compileElements exampleEnvironment (userHelper, WhereQueryBuilder_new)
      [activeFilter, JObj [], JObj [(''name'', JStr ''John'')]])
     = Inr [([CHR 0x22] @ ''User'' @ [CHR 0x22] @ ''.'' @ [CHR 0x22] @ ''status'' @ [CHR 0x22]
               @ '' = :where_param_0'', [(''where_param_0'', JStr ''active'')]),
            ([], []),
            ([CHR 0x22] @ ''User'' @ [CHR 0x22] @ ''.'' @ [CHR 0x22] @ ''name'' @ [CHR 0x22]
               @ '' = :where_param_1'', [(''where_param_1'', JStr ''John'')])]"
  by (simp add: activeFilter_def example_defs helper_defs where_defs string_of_nat.simps)

text \<open>A run of C8: three elements, the second empty, two survivors.\<close>

theorem C8_witness:
  "compiledOf (buildWhereQueryAndParams exampleEnvironment (userHelper, WhereQueryBuilder_new) pairGroup)
     = Inr (''(('' @ [CHR 0x22] @ ''User'' @ [CHR 0x22] @ ''.'' @ [CHR 0x22] @ ''status'' @ [CHR 0x22]
              @ '' = :where_param_0) OR ('' @ [CHR 0x22] @ ''User'' @ [CHR 0x22] @ ''.'' @ [CHR 0x22]
              @ ''name'' @ [CHR 0x22] @ '' = :where_param_1))'',
            [(''where_param_0'', JStr ''active''), (''where_param_1'', JStr ''John'')])"
proof -
  let ?st = "(userHelper, WhereQueryBuilder_new)"
  let ?subs = "[activeFilter, JObj [], JObj [(''name'', JStr ''John'')]]"
  obtain cs st' where r: "compileElements exampleEnvironment ?st ?subs = Inr (cs, st')"
    and cs: "cs = [([CHR 0x22] @ ''User'' @ [CHR 0x22] @ ''.'' @ [CHR 0x22] @ ''status'' @ [CHR 0x22]
               @ '' = :where_param_0'', [(''where_param_0'', JStr ''active'')]),
            ([], []),
            ([CHR 0x22] @ ''User'' @ [CHR 0x22] @ ''.'' @ [CHR 0x22] @ ''name'' @ [CHR 0x22]
               @ '' = :where_param_1'', [(''where_param_1'', JStr ''John'')])]"
    using pair_elements
    by (cases "compileElements exampleEnvironment ?st ?subs") auto
  have k: "''$or'' = ''$and'' \<or> ''$or'' = ''$or''" by simp
  show ?thesis
    using C8_group_fragment [OF k, of exampleEnvironment ?st ?subs cs st', THEN conjunct1, rule_format, OF r]
    by (simp add: pairGroup_def cs compiledOf_def surviving_def groupAsCompiled_def connective_def
          assignAll_def Object_assign_def)
qed

text \<open>
  The claim as stated leaves a single surviving fragment without further parentheses. The
  group of the one element \<open>{status: 'active'}\<close> compiles to that element's fragment in
  parentheses, where the specified form is the bare fragment.
\<close>

theorem C8_counterexample:
  "compiledOf (buildWhereQueryAndParams exampleEnvironment (userHelper, WhereQueryBuilder_new) activeFilter)
     = Inr ([CHR 0x22] @ ''User'' @ [CHR 0x22] @ ''.'' @ [CHR 0x22] @ ''status'' @ [CHR 0x22]
              @ '' = :where_param_0'', [(''where_param_0'', JStr ''active'')])
   \<and> compiledOf (buildWhereQueryAndParams exampleEnvironment (userHelper, WhereQueryBuilder_new) singletonGroup)
     = Inr (''('' @ [CHR 0x22] @ ''User'' @ [CHR 0x22] @ ''.'' @ [CHR 0x22] @ ''status'' @ [CHR 0x22]
              @ '' = :where_param_0)'', [(''where_param_0'', JStr ''active'')])
   \<and> groupAsSpecified ''$and'' [[CHR 0x22] @ ''User'' @ [CHR 0x22] @ ''.'' @ [CHR 0x22] @ ''status'' @ [CHR 0x22]
              @ '' = :where_param_0'']
     = [CHR 0x22] @ ''User'' @ [CHR 0x22] @ ''.'' @ [CHR 0x22] @ ''status'' @ [CHR 0x22]
              @ '' = :where_param_0''"
  by (simp add: singletonGroup_def activeFilter_def example_defs helper_defs where_defs
        string_of_nat.simps groupAsSpecified_def connective_def)

section \<open>The dialect and the selection\<close>

lemma dbType_addFields [simp]: "dbType (addFields fs h) = dbType h"
  by (simp add: addFields_def)

lemma dbType_getFieldWithAlias_eq:
  "getFieldWithAlias env h f = (x, h') \<Longrightarrow> dbType h' = dbType h"
  using dbType_getFieldWithAlias [of env h f] by simp

lemma dbType_getRelationMetadata_eq:
  "getRelationMetadata env h f = (x, h') \<Longrightarrow> dbType h' = dbType h"
  using dbType_getRelationMetadata [of env h f] by simp

lemma dbType_setJoin:
  assumes "setJoin env hb name options = Inr hb'"
  shows "dbType (fst hb') = dbType (fst hb)"
proof -
  obtain x h' where g: "getRelationMetadata env (fst hb) name = (x, h')"
    by (cases "getRelationMetadata env (fst hb) name")
  have d: "dbType h' = dbType (fst hb)" using g by (rule dbType_getRelationMetadata_eq)
  show ?thesis
    using assms g d
    by (cases x) (auto simp: setJoin_def Let_def split: if_splits)
qed

lemma dbType_forRelations:
  "forRelations env joinConfig hb ps = Inr hb' \<Longrightarrow> dbType (fst hb') = dbType (fst hb)"
proof (induction ps arbitrary: hb)
  case Nil
  then show ?case by simp
next
  case (Cons p ps)
  then obtain hb1 where 1: "setJoin env hb p (optionsFor joinConfig p) = Inr hb1"
    and 2: "forRelations env joinConfig hb1 ps = Inr hb'"
    by (auto split: sum.splits)
  show ?case using dbType_setJoin [OF 1] Cons.IH [OF 2] by simp
qed

lemma dbType_JoinQueryBuilder_build:
  "JoinQueryBuilder_build env hb config = Inr hb' \<Longrightarrow> dbType (fst hb') = dbType (fst hb)"
  by (simp add: JoinQueryBuilder_build_def Let_def dbType_forRelations)

lemma dbType_resolveAll: "resolveAll env h fs = (xs, h') \<Longrightarrow> dbType h' = dbType h"
proof (induction fs arbitrary: h xs h')
  case Nil
  then show ?case by simp
next
  case (Cons f fs)
  obtain x h1 where 1: "getFieldWithAlias env h f = (x, h1)" by (cases "getFieldWithAlias env h f")
  obtain ys h2 where 2: "resolveAll env h1 fs = (ys, h2)" by (cases "resolveAll env h1 fs")
  have "h' = h2" using Cons.prems 1 2 by simp
  then show ?case using dbType_getFieldWithAlias_eq [OF 1] Cons.IH [OF 2] by simp
qed

lemma dbType_forEntityColumns: "dbType (forEntityColumns env h cols) = dbType h"
proof (induction cols arbitrary: h)
  case Nil
  then show ?case by simp
next
  case (Cons c cols)
  obtain x h1 where 1: "getFieldWithAlias env h c = (x, h1)" by (cases "getFieldWithAlias env h c")
  show ?case using dbType_getFieldWithAlias_eq [OF 1] Cons.IH [of "addFields [x] h1"] 1 by simp
qed

lemma dbType_buildSelect [simp]: "dbType (buildSelect env h sel) = dbType h"
proof (cases "sel = None \<or> length (selectList sel) = 0")
  case True
  then have "buildSelect env h sel = forEntityColumns env h (entityColumns h)"
    by (auto simp: buildSelect_def)
  then show ?thesis by (simp add: dbType_forEntityColumns)
next
  case False
  obtain xs h' where r: "resolveAll env h (selectList sel) = (xs, h')"
    by (cases "resolveAll env h (selectList sel)")
  have "buildSelect env h sel = addFields xs h'"
    using False r by (auto simp: buildSelect_def)
  then show ?thesis using dbType_resolveAll [OF r] by simp
qed

lemma dbType_buildOrder: "buildOrder env hb order = hb' \<Longrightarrow> dbType (fst hb') = dbType (fst hb)"
proof (induction order arbitrary: hb)
  case Nil
  then show ?case by simp
next
  case (Cons kd order)
  obtain key d where kd: "kd = (key, d)" by (cases kd)
  obtain x h1 where 1: "getFieldWithAlias env (fst hb) key = (x, h1)"
    by (cases "getFieldWithAlias env (fst hb) key")
  have "buildOrder env (h1, addOrderBy (cleanFieldName h1 x) d (snd hb)) order = hb'"
    using Cons.prems kd 1 by simp
  from Cons.IH [OF this] show ?case using dbType_getFieldWithAlias_eq [OF 1] by simp
qed

lemma dbType_compileComparison:
  assumes "compileComparison env st key v operator acc = Inr (acc', st')"
  shows "dbType (fst st') = dbType (fst st)"
proof -
  obtain column h' where g: "getFieldWithAlias env (fst st) key = (column, h')"
    by (cases "getFieldWithAlias env (fst st) key")
  have "fst st' = h'"
    using assms g by (auto simp: compileComparison_def split: sum.splits prod.splits)
  then show ?thesis using dbType_getFieldWithAlias_eq [OF g] by simp
qed

lemma dbType_forOperators:
  "forOperators env st key ops acc = Inr (acc', st') \<Longrightarrow> dbType (fst st') = dbType (fst st)"
proof (induction ops arbitrary: st acc)
  case Nil
  then show ?case by simp
next
  case (Cons kv ops)
  obtain op v where kv: "kv = (op, v)" by (cases kv)
  obtain acc1 st1 where 1: "compileComparison env st key v (asWhereOperatorEnum env op) acc = Inr (acc1, st1)"
    and 2: "forOperators env st1 key ops acc1 = Inr (acc', st')"
    using Cons.prems kv by (auto split: sum.splits)
  show ?case using dbType_compileComparison [OF 1] Cons.IH [OF 2] by simp
qed

lemma dbType_compileField:
  assumes "compileField env st key v acc = Inr (acc', st')"
  shows "dbType (fst st') = dbType (fst st)"
proof (cases "\<exists>ops. v = JObj ops")
  case True
  then obtain ops where v: "v = JObj ops" by blast
  then have "forOperators env st key ops acc = Inr (acc', st')"
    using assms by (simp add: compileField_def)
  then show ?thesis by (rule dbType_forOperators)
next
  case False
  then have "compileComparison env st key v EQ acc = Inr (acc', st')"
    using assms by (cases v; simp add: compileField_def)
  then show ?thesis by (rule dbType_compileComparison)
qed

lemma dbType_forIndices:
  "forIndices env st kvs acc = Inr (acc', st') \<Longrightarrow> dbType (fst st') = dbType (fst st)"
proof (induction kvs arbitrary: st acc)
  case Nil
  then show ?case by simp
next
  case (Cons kv kvs)
  obtain key v where kv: "kv = (key, v)" by (cases kv)
  obtain acc1 st1 where 1: "compileField env st key v acc = Inr (acc1, st1)"
    and 2: "forIndices env st1 kvs acc1 = Inr (acc', st')"
    using Cons.prems kv by (auto split: sum.splits)
  show ?case using dbType_compileField [OF 1] Cons.IH [OF 2] by simp
qed

lemma dbType_where:
  shows "\<forall>c st'. buildWhereQueryAndParams env st v = Inr (c, st') \<longrightarrow> dbType (fst st') = dbType (fst st)"
    and "\<forall>acc' st'. forKeys env1 st1 kvs acc1 = Inr (acc', st') \<longrightarrow> dbType (fst st') = dbType (fst st1)"
    and "\<forall>acc' st'. forSubs env2 st2 subs acc2 = Inr (acc', st') \<longrightarrow> dbType (fst st') = dbType (fst st2)"
proof (induction env st v and env1 st1 kvs acc1 and env2 st2 subs acc2 rule: where_induct)
  case (Object env st kvs)
  show ?case
  proof (intro allI impI)
    fix c st'
    assume r: "buildWhereQueryAndParams env st (JObj kvs) = Inr (c, st')"
    show "dbType (fst st') = dbType (fst st)"
    proof (cases "kvs = []")
      case True
      then show ?thesis using r by simp
    next
      case False
      obtain q ps where c: "c = (q, ps)" by (cases c)
      have "finish (forKeys env st kvs ([], [])) = Inr ((q, ps), st')" using r False c by simp
      then obtain qp where "forKeys env st kvs ([], []) = Inr ((qp, ps), st')"
        using finish_Inr by blast
      then show ?thesis using Object by blast
    qed
  qed
next
  case (Other env st v)
  show ?case
  proof (intro allI impI)
    fix c st'
    assume r: "buildWhereQueryAndParams env st v = Inr (c, st')"
    obtain q ps where c: "c = (q, ps)" by (cases c)
    have ind: "finish (forIndices env st kvs ([], [])) = Inr ((q, ps), st') \<Longrightarrow> dbType (fst st') = dbType (fst st)" for kvs
      using finish_Inr dbType_forIndices by blast
    show "dbType (fst st') = dbType (fst st)"
    proof (cases v)
      case (JArr xs)
      then show ?thesis using r c ind by (cases "xs = []") auto
    next
      case (JStr x)
      then show ?thesis using r c ind by (cases "x = []") auto
    next
      case (JObj kvs)
      then show ?thesis using Other by simp
    qed (use r in auto)
  qed
next
  case (Nil env st acc)
  then show ?case by simp
next
  case (Skip env st key v kvs acc)
  show ?case using Skip(3) unfolding forKeys_skip [OF Skip(1,2)] .
next
  case (Group env st key subs kvs acc)
  show ?case
  proof (intro allI impI)
    fix acc' st'
    assume r: "forKeys env st ((key, JArr subs) # kvs) acc = Inr (acc', st')"
    obtain subParts ps st1 where s: "forSubs env st subs ([], snd acc) = Inr ((subParts, ps), st1)"
      and k: "forKeys env st1 kvs
                (if subParts \<noteq> [] then fst acc @ [groupQuery key subParts] else fst acc, ps) = Inr (acc', st')"
      using r unfolding forKeys_group [OF Group(1,2)] by (auto split: sum.splits prod.splits)
    show "dbType (fst st') = dbType (fst st)"
      using Group(3) [rule_format, OF s] Group(4) [OF s, rule_format, OF k] by simp
  qed
next
  case (Field env st key v kvs acc)
  show ?case
  proof (intro allI impI)
    fix acc' st'
    assume r: "forKeys env st ((key, v) # kvs) acc = Inr (acc', st')"
    obtain acc1 st1 where f: "compileField env st key v acc = Inr (acc1, st1)"
      and k: "forKeys env st1 kvs acc1 = Inr (acc', st')"
      using r unfolding forKeys_field [OF Field(1,2)] by (auto split: sum.splits prod.splits)
    show "dbType (fst st') = dbType (fst st)"
      using dbType_compileField [OF f] Field(3) [OF f, rule_format, OF k] by simp
  qed
next
  case (SubsNil env st acc)
  then show ?case by simp
next
  case (SubsCons env st sub subs acc)
  show ?case
  proof (intro allI impI)
    fix acc' st'
    assume r: "forSubs env st (sub # subs) acc = Inr (acc', st')"
    obtain q ps st1 where b: "buildWhereQueryAndParams env st sub = Inr ((q, ps), st1)"
      and k: "forSubs env st1 subs
                (if q \<noteq> [] then (fst acc @ [''('' @ q @ '')''], Object_assign (snd acc) ps) else acc)
              = Inr (acc', st')"
      using r unfolding forSubs.simps by (auto split: sum.splits prod.splits)
    show "dbType (fst st') = dbType (fst st)"
      using SubsCons(1) [rule_format, OF b] SubsCons(2) [OF b, rule_format, OF k] by simp
  qed
qed


lemma dbType_WhereQueryBuilder_build:
  assumes "WhereQueryBuilder_build env sb w = Inr sb'"
  shows "dbType (fst (fst sb')) = dbType (fst (fst sb))"
proof (cases "\<not> truthy w \<or> (case w of JArr xs \<Rightarrow> length xs = 0 | _ \<Rightarrow> False) \<or> objectKeysEmpty w")
  case True
  then have "sb' = sb" using assms by (auto simp: WhereQueryBuilder_build_def split: if_splits)
  then show ?thesis by simp
next
  case False
  let ?w = "if isArray w then JObj [(''$and'', w)] else w"
  obtain q ps st' where b: "buildWhereQueryAndParams env (fst sb) ?w = Inr ((q, ps), st')"
    and sb': "fst sb' = st'"
    using assms False by (auto simp: WhereQueryBuilder_build_def split: sum.splits prod.splits)
  show ?thesis using dbType_where(1) [rule_format, OF b] sb' by simp
qed

lemma dbType_applyOptions:
  assumes "applyOptions env q options = Inr q'"
  shows "dbType (fqbHelper q') = dbType (fqbHelper q)"
proof -
  let ?b1 = "(applySoftDelete (fqbRepository q) options (fqbBuilder q))
               \<lparr>findOptions := Some (buildFindOptions (fqbRepository q) options)\<rparr>"
  let ?h1 = "buildSelect env (fqbHelper q) (optSelect options)"
  let ?j = "case givenRelations (optRelations options) of
              Some rels \<Rightarrow> JoinQueryBuilder_build env (?h1, ?b1) rels
            | None \<Rightarrow> Inr (?h1, ?b1)"
  obtain h2 b2 where j: "?j = Inr (h2, b2)"
    using assms by (cases ?j) (auto simp: applyOptions_def Let_def)
  have d2: "dbType h2 = dbType (fqbHelper q)"
    using j dbType_JoinQueryBuilder_build [of env "(?h1, ?b1)" _ "(h2, b2)"]
    by (auto split: option.splits)
  let ?w = "if truthy (optWhere options)
            then WhereQueryBuilder_build env ((h2, fqbWhere q), b2) (optWhere options)
            else Inr ((h2, fqbWhere q), b2)"
  obtain h3 w3 b3 where w: "?w = Inr ((h3, w3), b3)"
    using assms j by (cases ?w) (auto simp: applyOptions_def Let_def)
  have d3: "dbType h3 = dbType h2"
    using w dbType_WhereQueryBuilder_build [of env "((h2, fqbWhere q), b2)" _ "((h3, w3), b3)"]
    by (auto split: if_splits)
  let ?o = "case optOrder options of
              None \<Rightarrow> (h3, b3)
            | Some order \<Rightarrow> buildOrder env (h3, b3) order"
  have d4: "dbType (fst ?o) = dbType h3"
    using dbType_buildOrder [of env "(h3, b3)"] by (auto split: option.splits)
  have "fqbHelper q' = fst ?o"
    using assms j w by (auto simp: applyOptions_def Let_def split: prod.splits)
  then show ?thesis using d2 d3 d4 by simp
qed

text \<open>
  Claim C10. When \<open>build\<close> returns, the selection of the query builder is the helper's
  selected fields, each cleaned by \<open>cleanFieldName\<close>; the dialect of the helper is the one it
  started with; and no entry of the selection contains the dialect's identifier quote (the
  backtick for MySQL and MariaDB, the double quote otherwise).
\<close>

theorem C10_selection_has_no_quote:
  assumes "FindQueryBuilder_build env q options = Inr q'"
  shows "selects (fqbBuilder q') = map (cleanFieldName (fqbHelper q')) (selectedFields (fqbHelper q'))
       \<and> dbType (fqbHelper q') = dbType (fqbHelper q)
       \<and> (\<forall>f \<in> set (selects (fqbBuilder q')).
             (if dbType (fqbHelper q) = ''mysql'' \<or> dbType (fqbHelper q) = ''mariadb''
              then CHR 0x60 else CHR 0x22) \<notin> set f)"
proof -
  let ?r = "case options of None \<Rightarrow> Inr q | Some opts \<Rightarrow> applyOptions env q opts"
  obtain q1 where r: "?r = Inr q1"
    using assms by (cases ?r) (auto simp: FindQueryBuilder_build_def)
  have q': "q' = q1\<lparr>fqbBuilder := (fqbBuilder q1)\<lparr>selects := map (cleanFieldName (fqbHelper q1)) (selectedFields (fqbHelper q1))\<rparr>\<rparr>"
    using assms r by (simp add: FindQueryBuilder_build_def Let_def)
  have d: "dbType (fqbHelper q1) = dbType (fqbHelper q)"
    using r dbType_applyOptions by (cases options) auto
  have 1: "selects (fqbBuilder q') = map (cleanFieldName (fqbHelper q')) (selectedFields (fqbHelper q'))"
    using q' by simp
  have 2: "dbType (fqbHelper q') = dbType (fqbHelper q)" using q' d by simp
  have quote: "getIdentifierQuote (fqbHelper q')
      = (if dbType (fqbHelper q) = ''mysql'' \<or> dbType (fqbHelper q) = ''mariadb'' then CHR 0x60 else CHR 0x22)"
    using 2 by (simp add: getIdentifierQuote_def)
  have 3: "\<forall>f \<in> set (selects (fqbBuilder q')).
             (if dbType (fqbHelper q) = ''mysql'' \<or> dbType (fqbHelper q) = ''mariadb''
              then CHR 0x60 else CHR 0x22) \<notin> set f"
    unfolding 1 quote [symmetric] by (auto simp: cleanFieldName_def)
  show ?thesis by (intro conjI 1 2 3)
qed

lemmas join_defs =
  JoinQueryBuilder_build_def sortedRelations_def collectAllNeededRelations_def parentPaths_def
  depth_def setJoin_def optionsFor_def defaultOptions_def applyJoin_def leftJoin_def innerJoin_def
  isArrayFull_def selectList_def addFields_def Set_addAll_def Set_add_def notFound_def

lemmas find_defs =
  FindQueryBuilder_build_def FindQueryBuilder_new_def applyOptions_def applySoftDelete_def
  buildFindOptions_def buildSelect_def givenRelations_def isTrue_def cleanFieldName_def
  selectsOf_def andWhere_def addOrderBy_def WhereQueryBuilder_build_def objectKeysEmpty_def

lemma nameAndProfile_selects:
  "selectsOf (FindQueryBuilder_build exampleEnvironment (FindQueryBuilder_new userRepository)
      (Some nameAndProfile))
     = Inr [''User.name'', ''profile.id'', ''profile.age'', ''profile.bio'']"
  by (simp add: nameAndProfile_def example_defs helper_defs join_defs find_defs Let_def)

text \<open>A run of C10: the resolved column \<open>"User"."name"\<close> is selected as \<open>User.name\<close>.\<close>

theorem C10_witness:
  "selectsOf (FindQueryBuilder_build exampleEnvironment (FindQueryBuilder_new userRepository)
      (Some nameAndProfile))
     = Inr [''User.name'', ''profile.id'', ''profile.age'', ''profile.bio'']
   \<and> list_all (\<lambda>f. CHR 0x22 \<notin> set f) [''User.name'', ''profile.id'', ''profile.age'', ''profile.bio'']"
proof -
  let ?R = "FindQueryBuilder_build exampleEnvironment (FindQueryBuilder_new userRepository)
      (Some nameAndProfile)"
  note e = nameAndProfile_selects
  then obtain q' where r: "?R = Inr q'"
    and s: "selects (fqbBuilder q') = [''User.name'', ''profile.id'', ''profile.age'', ''profile.bio'']"
    by (cases ?R) (auto simp: selectsOf_def)
  have d: "dbType (fqbHelper (FindQueryBuilder_new userRepository)) = ''sqlite''"
    by (simp add: FindQueryBuilder_new_def QueryBuilderHelper_new_def userRepository_def Let_def)
  have "\<forall>f \<in> set [''User.name'', ''profile.id'', ''profile.age'', ''profile.bio'']. CHR 0x22 \<notin> set f"
    using C10_selection_has_no_quote [OF r, THEN conjunct2, THEN conjunct2] unfolding s d by simp
  then show ?thesis using e by (simp add: list_all_iff)
qed

section \<open>Paths, closures and their order\<close>













lemma set_Set_add [simp]: "set (Set_add x xs) = insert x (set xs)"
  by (auto simp: Set_add_def)

lemma distinct_Set_add [simp]: "distinct (Set_add x xs) = distinct xs"
  by (auto simp: Set_add_def)

lemma set_Set_addAll [simp]: "set (Set_addAll ys xs) = set xs \<union> set ys"
  unfolding Set_addAll_def by (induction ys arbitrary: xs) auto

lemma distinct_Set_addAll [simp]: "distinct (Set_addAll ys xs) = distinct xs"
  unfolding Set_addAll_def by (induction ys arbitrary: xs) auto









lemma getRelationMetadata_frame:
  assumes "getRelationMetadata env h name = (x, h')"
  shows "repository h' = repository h" and "rootAlias h' = rootAlias h"
    and "selectedFields h' = selectedFields h"
    and "\<And>other. other \<noteq> name \<Longrightarrow> entityRelationsHash h' other = entityRelationsHash h other"
  using assms by (auto simp: getRelationMetadata_def Let_def split: option.splits)







section \<open>The joins of a relation specification\<close>









lemma deep_fields:
  "fieldsOf (JoinQueryBuilder_build exampleEnvironment (userHelper, userBuilder) deepRelationsWithAncestor)
     = Inr [''profile.id'', ''profile.bio'', ''profile_addresses.id'', ''profile_addresses.city'',
            ''profile_addresses.state'', ''profile_addresses_profile.age'']"
  by (simp add: deepRelationsWithAncestor_def fieldsOf_def join_defs example_defs helper_defs Let_def)



lemma cities_fields:
  "fieldsOf (JoinQueryBuilder_build exampleEnvironment (userHelper, userBuilder) citiesOnly)
     = Inr [''profile.id'', ''profile.age'', ''profile.bio'', ''profile_addresses.city'']"
  by (simp add: citiesOnly_def fieldsOf_def join_defs example_defs helper_defs Let_def)

lemma ages_fields:
  "fieldsOf (JoinQueryBuilder_build exampleEnvironment (userHelper, userBuilder) agesOnly)
     = Inr [''profile.id'', ''profile.age'']"
  by (simp add: agesOnly_def fieldsOf_def join_defs example_defs helper_defs Let_def)




text \<open>
  Claim C3 on two specifications. For the nested path \<open>profile.addresses\<close> with the
  selection \<open>city\<close>, the planner registers \<open>profile_addresses.city\<close> but not the primary key
  \<open>profile_addresses.id\<close> of the addresses; for the path \<open>profile\<close> of one segment with the
  selection \<open>age\<close> it registers the primary key \<open>profile.id\<close> with \<open>profile.age\<close>.
\<close>

theorem C3_nested_select_omits_primary_key:
  "fieldsOf (JoinQueryBuilder_build exampleEnvironment (userHelper, userBuilder) citiesOnly)
     = Inr [''profile.id'', ''profile.age'', ''profile.bio'', ''profile_addresses.city'']
   \<and> map propertyPath (primaryColumns addressEntity) = [''id'']
   \<and> fieldsOf (JoinQueryBuilder_build exampleEnvironment (userHelper, userBuilder) agesOnly)
     = Inr [''profile.id'', ''profile.age'']"
  using cities_fields ages_fields by (simp add: addressEntity_def idColumn_def plainColumn_def)

text \<open>For a path of one segment the registered columns are the primary keys and the
  selected columns that the target entity has.\<close>

lemma single_segment_select_registers_primary_keys:
  assumes "depth name = Suc 0" and "getRelationMetadata env h name = (Some r, h1)"
    and "isArrayFull (select options)" and "setJoin env (h, b) name options = Inr (h', b')"
  shows "set (selectedFields h')
           = set (selectedFields h)
             \<union> (\<lambda>col. name @ ''.'' @ col)
                 ` (set (relPrimaryColumns r) \<union> (set (selectList (select options)) \<inter> set (allowedColumns r)))"
proof -
  have s: "selectedFields h1 = selectedFields h" using getRelationMetadata_frame(3) [OF assms(2)] .
  have "h' = addFields (Set_addAll (map (\<lambda>col. name @ ''.'' @ col)
              (relPrimaryColumns r @ filter (\<lambda>column. list_ex (\<lambda>allowed. allowed = column) (allowedColumns r))
                 (selectList (select options)))) []) h1"
    using assms by (simp add: setJoin_def Let_def depth_def)
  then show ?thesis using s by (auto simp: addFields_def list_ex_iff)
qed

end
